theory Spec2Isabelle
  imports Complex_Main "HOL-Library.AList" "HOL-Library.Multiset"
begin

section \<open>Numeric helper\<close>

text \<open>
  The analyzer of pprof-to-md (\<^verbatim>\<open>src/analyzer.ts\<close>) works on values of the type
  \<^verbatim>\<open>Numeric = number | bigint\<close>. A \<^verbatim>\<open>number\<close> is a double; a finite double is a rational
  number, and \<open>fl x\<close> is the double nearest to the rational \<open>x\<close>: 53 significant
  bits, or fewer where the exponent would fall below the smallest one, \<open>-1074\<close>, and
  ties to even. The model covers the finite doubles; a result beyond the largest
  double (an infinity in JavaScript), NaN and the sign of zero are outside it.
\<close>

function bitLength :: "int \<Rightarrow> int" where
  "bitLength n = (if n \<le> 0 then 0 else 1 + bitLength (n div 2))"
  by pat_completeness auto
termination
  by (relation "measure nat") auto

declare bitLength.simps [simp del]

definition pow2 :: "int \<Rightarrow> rat" where
  "pow2 e = (if 0 \<le> e then 2 ^ nat e else 1 / 2 ^ nat (- e))"

text \<open>For \<open>a > 0\<close>, \<open>binExp a\<close> is the exponent \<open>e\<close> with \<open>2 ^ e \<le> a < 2 ^ (e + 1)\<close>.\<close>

definition binExp :: "rat \<Rightarrow> int" where
  "binExp a =
     (let (p, q) = quotient_of a;
          e0 = bitLength p - bitLength q
      in if pow2 e0 \<le> a then e0 else e0 - 1)"

definition roundHalfEven :: "rat \<Rightarrow> int" where
  "roundHalfEven x =
     (let f = \<lfloor>x\<rfloor>; d = x - of_int f
      in if d < 1 / 2 then f else if 1 / 2 < d then f + 1
         else if even f then f else f + 1)"

definition fl :: "rat \<Rightarrow> rat" where
  "fl x =
     (if x = 0 then 0
      else let a = \<bar>x\<bar>; e = max (binExp a - 52) (- 1074); m = roundHalfEven (a / pow2 e)
           in sgn x * of_int m * pow2 e)"

text \<open>
  \<^verbatim>\<open>Numeric\<close>, \<^verbatim>\<open>toNum\<close> and \<^verbatim>\<open>addNumeric\<close> (analyzer.ts, lines 20-30, and types.ts).
  \<^verbatim>\<open>Number(value)\<close> rounds a bigint to the nearest double; two bigints are added
  exactly, any other pair is converted and added as doubles.
\<close>

datatype Numeric = Number rat | BigInt int

fun toNum :: "Numeric \<Rightarrow> rat" where
  "toNum (BigInt v) = fl (of_int v)"
| "toNum (Number x) = x"

fun addNumeric :: "Numeric \<Rightarrow> Numeric \<Rightarrow> Numeric" where
  "addNumeric (BigInt a) (BigInt b) = BigInt (a + b)"
| "addNumeric a b = Number (fl (toNum a + toNum b))"

text \<open>
  The expression \<^verbatim>\<open>(toNum(value) / totalNum) * 100\<close> of \<^verbatim>\<open>aggregateFunctionStats\<close> and
  \<^verbatim>\<open>calculateTreePercentages\<close>: a division and a multiplication of doubles. In
  JavaScript a zero \<^verbatim>\<open>totalNum\<close> gives \<^verbatim>\<open>NaN\<close> or an infinity, in HOL \<open>x / 0 = 0\<close>;
  \<open>analyzeProfile\<close> never reaches it with a zero total.
\<close>

definition percent :: "Numeric \<Rightarrow> Numeric \<Rightarrow> rat" where
  "percent v totalValue = fl (fl (toNum v / toNum totalValue) * 100)"

subsection \<open>Strings of numbers\<close>

text \<open>
  Strings are lists of code units. \<open>showNat\<close> gives the decimal digits of a
  natural number.
\<close>

definition digit :: "int \<Rightarrow> char" where
  "digit d = char_of (48 + d)"

function showNat :: "int \<Rightarrow> string" where
  "showNat n = (if n < 10 then [digit n] else showNat (n div 10) @ [digit (n mod 10)])"
  by pat_completeness auto
termination
  by (relation "measure nat") auto

declare showNat.simps [simp del]

text \<open>
  \<^verbatim>\<open>Number::toString\<close> of ECMAScript, which the template literals \<^verbatim>\<open>`${num}`\<close> apply to
  a number. For \<open>a > 0\<close> it takes integers \<open>n\<close>, \<open>k\<close>, \<open>s\<close> with \<open>k\<close> digits in \<open>s\<close>, such
  that \<open>s * 10 ^ (n - k)\<close> rounds to the double \<open>a\<close>, with \<open>k\<close> as small as possible
  (and then \<open>s * 10 ^ (n - k)\<close> as close to \<open>a\<close> as possible, \<open>s\<close> even on a tie), and
  prints the digits of \<open>s\<close> as an integer, with a decimal point, or with an exponent
  when \<open>n\<close> is above \<open>21\<close> or below \<open>-5\<close>.

  \<open>decExp a\<close> is the \<open>n\<close> with \<open>10 ^ (n - 1) \<le> a < 10 ^ n\<close>. With \<open>k\<close> digits, the
  only multiples of \<open>10 ^ (n - k)\<close> that can round to \<open>a\<close> are the two next to \<open>a\<close>;
  the upper one may be the power \<open>10 ^ n\<close>, whose \<open>s\<close> is \<open>10 ^ (k - 1)\<close>. A double
  needs at most 17 digits.
\<close>

function decLength :: "int \<Rightarrow> int" where
  "decLength n = (if n \<le> 0 then 0 else 1 + decLength (n div 10))"
  by pat_completeness auto
termination
  by (relation "measure nat") auto

declare decLength.simps [simp del]

definition pow10 :: "int \<Rightarrow> rat" where
  "pow10 e = (if 0 \<le> e then 10 ^ nat e else 1 / 10 ^ nat (- e))"

definition decExp :: "rat \<Rightarrow> int" where
  "decExp a =
     (let (p, q) = quotient_of a;
          e0 = decLength p - decLength q
      in if pow10 e0 \<le> a then e0 + 1 else e0)"

definition roundsTo :: "rat \<Rightarrow> int \<Rightarrow> int \<times> int \<Rightarrow> bool" where
  "roundsTo a k c = (case c of (n, s) \<Rightarrow> fl (of_int s * pow10 (n - k)) = a)"

definition closer :: "rat \<Rightarrow> int \<Rightarrow> int \<times> int \<Rightarrow> int \<times> int \<Rightarrow> int \<times> int" where
  "closer a k lower upper =
     (let dl = a - of_int (snd lower) * pow10 (fst lower - k);
          du = of_int (snd upper) * pow10 (fst upper - k) - a
      in if dl < du then lower else if du < dl then upper
         else if even (snd lower) then lower else upper)"

definition digitsWith :: "rat \<Rightarrow> int \<Rightarrow> int \<Rightarrow> (int \<times> int) option" where
  "digitsWith a n0 k =
     (let f = \<lfloor>a / pow10 (n0 - k)\<rfloor>;
          lower = (n0, f);
          upper = (if f + 1 < 10 ^ nat k then (n0, f + 1) else (n0 + 1, 10 ^ nat (k - 1)))
      in if roundsTo a k lower \<and> roundsTo a k upper then Some (closer a k lower upper)
         else if roundsTo a k lower then Some lower
         else if roundsTo a k upper then Some upper
         else None)"

fun shortestDigits :: "nat \<Rightarrow> rat \<Rightarrow> int \<Rightarrow> int \<Rightarrow> int \<times> int \<times> int" where
  "shortestDigits 0 a n0 k = (n0, k, \<lfloor>a / pow10 (n0 - k)\<rfloor>)"
| "shortestDigits (Suc more) a n0 k =
     (case digitsWith a n0 k of
        Some (n, s) \<Rightarrow> (n, k, s)
      | None \<Rightarrow> shortestDigits more a n0 (k + 1))"

definition zeros :: "int \<Rightarrow> string" where
  "zeros n = replicate (nat n) (CHR ''0'')"

definition positiveToString :: "rat \<Rightarrow> string" where
  "positiveToString a =
     (case shortestDigits 17 a (decExp a) 1 of (n, k, s) \<Rightarrow>
        (let ds = showNat s
         in if k \<le> n \<and> n \<le> 21 then ds @ zeros (n - k)
            else if 0 < n \<and> n \<le> 21 then take (nat n) ds @ ''.'' @ drop (nat n) ds
            else if - 6 < n \<and> n \<le> 0 then ''0.'' @ zeros (- n) @ ds
            else
              (let e = n - 1;
                   es = (if e < 0 then ''-'' else ''+'') @ showNat \<bar>e\<bar>
               in if k = 1 then ds @ ''e'' @ es
                  else take 1 ds @ ''.'' @ drop 1 ds @ ''e'' @ es)))"

definition numberToString :: "rat \<Rightarrow> string" where
  "numberToString x =
     (if x = 0 then ''0''
      else if x < 0 then ''-'' @ positiveToString (- x)
      else positiveToString x)"

text \<open>
  \<^verbatim>\<open>x.toFixed(2)\<close>: the sign, then for \<open>x\<close> from \<open>10 ^ 21\<close> on the string of the number
  itself, and below it the integer \<open>n\<close> nearest to \<open>100 * x\<close> (the larger one on a
  tie) printed with two decimals.
\<close>

definition toFixed2 :: "rat \<Rightarrow> string" where
  "toFixed2 x =
     (let s = (if x < 0 then ''-'' else []);
          a = (if x < 0 then - x else x)
      in if 10 ^ 21 \<le> a then s @ numberToString a
         else
           (let n = \<lfloor>a * 100 + 1 / 2\<rfloor>
            in s @ showNat (n div 100) @ ''.'' @ [digit (n mod 100 div 10), digit (n mod 10)]))"

text \<open>
  \<^verbatim>\<open>toLowerCase\<close> on the letters A-Z. The source compares the result with ASCII
  literals only, and no other code unit lowers to a letter of these literals.
\<close>

definition lowerChar :: "char \<Rightarrow> char" where
  "lowerChar c =
     (let n = (of_char c :: int) in if 65 \<le> n \<and> n \<le> 90 then char_of (n + 32) else c)"

definition toLowerCase :: "string \<Rightarrow> string" where
  "toLowerCase s = map lowerChar s"

text \<open>
  \<^verbatim>\<open>formatValue\<close> (analyzer.ts, lines 409-434): the value is converted to a number
  first, and this number is compared, divided and printed. The micro sign of the
  microsecond suffix is the code unit \<open>0xB5\<close>.
\<close>

definition formatValue :: "Numeric \<Rightarrow> string \<Rightarrow> string" where
  "formatValue v unit =
     (let num = toNum v; lowerUnit = toLowerCase unit
      in if lowerUnit = ''nanoseconds'' \<or> lowerUnit = ''ns'' then
           (if 10 ^ 9 \<le> num then toFixed2 (fl (num / 10 ^ 9)) @ ''s''
            else if 10 ^ 6 \<le> num then toFixed2 (fl (num / 10 ^ 6)) @ ''ms''
            else if 10 ^ 3 \<le> num then toFixed2 (fl (num / 10 ^ 3)) @ [CHR 0xB5, CHR ''s'']
            else numberToString num @ ''ns'')
         else if lowerUnit = ''bytes'' then
           (if 10 ^ 9 \<le> num then toFixed2 (fl (num / 10 ^ 9)) @ '' GB''
            else if 10 ^ 6 \<le> num then toFixed2 (fl (num / 10 ^ 6)) @ '' MB''
            else if 10 ^ 3 \<le> num then toFixed2 (fl (num / 10 ^ 3)) @ '' KB''
            else numberToString num @ '' B'')
         else if lowerUnit = ''count'' \<or> lowerUnit = ''samples'' then
           (if 10 ^ 6 \<le> num then toFixed2 (fl (num / 10 ^ 6)) @ ''M''
            else if 10 ^ 3 \<le> num then toFixed2 (fl (num / 10 ^ 3)) @ ''K''
            else numberToString num)
         else numberToString num @ '' '' @ unit)"

section \<open>Data model\<close>

text \<open>
  The interfaces of \<^verbatim>\<open>src/types.ts\<close>. Field names carry a prefix, since several
  interfaces share the names \<^verbatim>\<open>key\<close>, \<^verbatim>\<open>name\<close>, \<^verbatim>\<open>line\<close> and so on. A field of type
  \<^verbatim>\<open>number\<close> is a double, except the counts \<^verbatim>\<open>sampleCount\<close> and \<^verbatim>\<open>totalSamples\<close>, which
  count elements of an array (fewer than \<open>2 ^ 32\<close>) and are exact integers. The
  lookup tables \<^verbatim>\<open>locations\<close> and \<^verbatim>\<open>functions\<close> of a profile are not read by the
  analyzer and are left out. A JavaScript \<^verbatim>\<open>Map\<close> iterates in insertion order and is
  an association list here; a \<^verbatim>\<open>Set<string>\<close> that is later turned into an array is a
  list without duplicates in insertion order.
\<close>

record SampleType =
  st_type :: string
  st_unit :: string

record FunctionInfo =
  fn_id :: Numeric
  fn_name :: string
  fn_systemName :: string
  fn_filename :: string
  fn_startLine :: rat

record LineInfo =
  li_functionId :: Numeric
  li_line :: rat
  li_function :: FunctionInfo

record Location =
  loc_id :: Numeric
  loc_address :: Numeric
  loc_lines :: "LineInfo list"

record Label =
  lbl_key :: string
  lbl_str :: string
  lbl_num :: Numeric
  lbl_numUnit :: string

record Sample =
  smp_stack :: "Location list"
  smp_values :: "Numeric list"
  smp_labels :: "Label list"

record PeriodType =
  pt_type :: string
  pt_unit :: string

record NormalizedProfile =
  prof_sampleTypes :: "SampleType list"
  prof_samples :: "Sample list"
  prof_dropFrames :: string
  prof_keepFrames :: string
  prof_comment :: "string list"
  prof_defaultSampleType :: Numeric
  prof_durationNanos :: Numeric
  prof_timeNanos :: Numeric
  prof_period :: Numeric
  prof_periodType :: "PeriodType option"

record FunctionStats =
  fs_key :: string
  fs_name :: string
  fs_filename :: string
  fs_line :: rat
  fs_selfValue :: Numeric
  fs_cumulativeValue :: Numeric
  fs_selfPercent :: rat
  fs_cumulativePercent :: rat
  fs_sampleCount :: int
  fs_callers :: "string list"
  fs_callees :: "string list"

record Hotspot =
  hs_key :: string
  hs_name :: string
  hs_filename :: string
  hs_line :: rat
  hs_selfValue :: Numeric
  hs_cumulativeValue :: Numeric
  hs_selfPercent :: rat
  hs_cumulativePercent :: rat
  hs_sampleCount :: int
  hs_type :: string
  hs_callers :: "string list"
  hs_callees :: "string list"

datatype CallTreeNode =
  CallTreeNode
    (ct_key: string)
    (ct_name: string)
    (ct_filename: string)
    (ct_line: rat)
    (ct_selfValue: Numeric)
    (ct_cumulativeValue: Numeric)
    (ct_selfPercent: rat)
    (ct_cumulativePercent: rat)
    (ct_children: "(string \<times> CallTreeNode) list")

record PathNode =
  pn_name :: string
  pn_selfPercent :: rat
  pn_cumulativePercent :: rat

record CriticalPath =
  cp_path :: "PathNode list"
  cp_cumulativePercent :: rat

record AnalysisResult =
  res_sampleType :: SampleType
  res_totalValue :: Numeric
  res_totalSamples :: nat
  res_functionStats :: "(string \<times> FunctionStats) list"
  res_callTree :: CallTreeNode
  res_hotspots :: "Hotspot list"
  res_criticalPaths :: "CriticalPath list"
  res_durationNanos :: Numeric
  res_period :: Numeric
  res_periodType :: "PeriodType option"

record AnalyzeOptions =
  opt_sampleTypeIndex :: "rat option"
  opt_hotspotThreshold :: "rat option"

text \<open>
  The failures of the analyzer: its one \<^verbatim>\<open>throw\<close>, of a plain \<^verbatim>\<open>Error\<close> with a message,
  and the \<^verbatim>\<open>RangeError\<close> that the engine raises when a recursive function is nested
  deeper than its call stack allows. The number of nested calls that the call
  stack has room for depends on the engine; it is the parameter \<open>stackDepth\<close> of the
  two recursive functions of the analyzer and of their callers.
\<close>

datatype error = Error string | RangeError

section \<open>Statistics aggregator\<close>

text \<open>
  An array is read with a number as index: the number names an element when it is
  an integer from \<open>0\<close> below the length, and every other read gives \<^verbatim>\<open>undefined\<close>.
  \<^verbatim>\<open>sample.values[sampleTypeIndex] ?? 0\<close> replaces \<^verbatim>\<open>undefined\<close> by the number \<open>0\<close>.
\<close>

definition isIndex :: "rat \<Rightarrow> nat \<Rightarrow> bool" where
  "isIndex i len = (of_int \<lfloor>i\<rfloor> = i \<and> 0 \<le> i \<and> i < of_nat len)"

definition sampleValue :: "Sample \<Rightarrow> rat \<Rightarrow> Numeric" where
  "sampleValue sample sampleTypeIndex =
     (if isIndex sampleTypeIndex (length (smp_values sample))
      then smp_values sample ! nat \<lfloor>sampleTypeIndex\<rfloor> else Number 0)"

text \<open>The identity key \<^verbatim>\<open>`${fn.name}@${fn.filename}:${line}`\<close>.\<close>

definition identityKey :: "FunctionInfo \<Rightarrow> rat \<Rightarrow> string" where
  "identityKey fn line = fn_name fn @ ''@'' @ fn_filename fn @ '':'' @ numberToString line"

text \<open>\<^verbatim>\<open>Set.prototype.add\<close> on a set kept in insertion order.\<close>

definition setAdd :: "string list \<Rightarrow> string \<Rightarrow> string list" where
  "setAdd xs x = (if x \<in> set xs then xs else xs @ [x])"

definition addNames :: "string list \<Rightarrow> Location \<Rightarrow> string list" where
  "addNames names loc = foldl setAdd names (map (\<lambda>l. fn_name (li_function l)) (loc_lines loc))"

text \<open>
  \<^verbatim>\<open>getOrCreateStats\<close> (lines 108-131) returns the row and the map that holds it;
  \<^verbatim>\<open>line || fn.startLine\<close> takes \<^verbatim>\<open>startLine\<close> when \<^verbatim>\<open>line\<close> is \<open>0\<close>.
\<close>

definition getOrCreateStats ::
  "(string \<times> FunctionStats) list \<Rightarrow> FunctionInfo \<Rightarrow> rat
     \<Rightarrow> (string \<times> FunctionStats) list \<times> FunctionStats" where
  "getOrCreateStats stats fn line =
     (let key = identityKey fn line
      in case map_of stats key of
           Some existing \<Rightarrow> (stats, existing)
         | None \<Rightarrow>
             (let existing =
                    \<lparr>fs_key = key, fs_name = fn_name fn, fs_filename = fn_filename fn,
                     fs_line = (if line = 0 then fn_startLine fn else line),
                     fs_selfValue = Number 0, fs_cumulativeValue = Number 0,
                     fs_selfPercent = 0, fs_cumulativePercent = 0,
                     fs_sampleCount = 0, fs_callers = [], fs_callees = []\<rparr>
              in (AList.update key existing stats, existing)))"

text \<open>
  The body of the loop over \<^verbatim>\<open>lines\<close> (lines 144-174) for the frame \<open>lineInfo\<close> at
  stack index \<open>i\<close>. The source mutates the row object held by the map; the model
  writes the changed row back under the key it was fetched with.
\<close>

definition processLine ::
  "Sample \<Rightarrow> Numeric \<Rightarrow> nat \<Rightarrow> (string \<times> FunctionStats) list \<times> string set \<Rightarrow> LineInfo
     \<Rightarrow> (string \<times> FunctionStats) list \<times> string set" where
  "processLine sample v i st lineInfo =
     (let (stats, seenInStack) = st;
          fn = li_function lineInfo;
          (stats1, fnStats) = getOrCreateStats stats fn (li_line lineInfo);
          key = fs_key fnStats;
          s1 = (if i = 0 then fnStats\<lparr>fs_selfValue := addNumeric (fs_selfValue fnStats) v\<rparr>
                else fnStats);
          s2 = (if key \<notin> seenInStack
                then s1\<lparr>fs_cumulativeValue := addNumeric (fs_cumulativeValue s1) v,
                        fs_sampleCount := fs_sampleCount s1 + 1\<rparr>
                else s1);
          seen2 = (if key \<notin> seenInStack then insert key seenInStack else seenInStack);
          s3 = (if i + 1 < length (smp_stack sample)
                then s2\<lparr>fs_callers := addNames (fs_callers s2) (smp_stack sample ! (i + 1))\<rparr>
                else s2);
          s4 = (if 0 < i
                then s3\<lparr>fs_callees := addNames (fs_callees s3) (smp_stack sample ! (i - 1))\<rparr>
                else s3)
      in (AList.update (identityKey fn (li_line lineInfo)) s4 stats1, seen2))"

definition processLocation ::
  "Sample \<Rightarrow> Numeric \<Rightarrow> (string \<times> FunctionStats) list \<times> string set \<Rightarrow> nat
     \<Rightarrow> (string \<times> FunctionStats) list \<times> string set" where
  "processLocation sample v st i =
     foldl (processLine sample v i) st (loc_lines (smp_stack sample ! i))"

text \<open>One iteration of the loop over the samples (lines 133-176).\<close>

definition processSample ::
  "rat \<Rightarrow> (string \<times> FunctionStats) list \<Rightarrow> Sample \<Rightarrow> (string \<times> FunctionStats) list" where
  "processSample sampleTypeIndex stats sample =
     (let v = sampleValue sample sampleTypeIndex
      in if toNum v = 0 then stats
         else fst (foldl (processLocation sample v) (stats, {})
                     [0 ..< length (smp_stack sample)]))"

definition setPercentages :: "Numeric \<Rightarrow> FunctionStats \<Rightarrow> FunctionStats" where
  "setPercentages totalValue fnStats =
     fnStats\<lparr>fs_selfPercent := percent (fs_selfValue fnStats) totalValue,
             fs_cumulativePercent := percent (fs_cumulativeValue fnStats) totalValue\<rparr>"

definition aggregateFunctionStats ::
  "NormalizedProfile \<Rightarrow> rat \<Rightarrow> Numeric \<Rightarrow> (string \<times> FunctionStats) list" where
  "aggregateFunctionStats profile sampleTypeIndex totalValue =
     map (\<lambda>(k, fnStats). (k, setPercentages totalValue fnStats))
       (foldl (processSample sampleTypeIndex) [] (prof_samples profile))"

section \<open>Call tree builder\<close>

definition createEmptyNode :: "string \<Rightarrow> CallTreeNode" where
  "createEmptyNode name = CallTreeNode name name [] 0 (Number 0) (Number 0) 0 0 []"

text \<open>
  The walk of one sample from the root to the leaf (lines 205-238), as a descent
  along the frames in root-to-leaf order: fetch or create the child of the current
  node, add the value to its cumulative value, continue below it; the node reached
  last gets the self value. The source is a loop that mutates the nodes in place;
  the model rebuilds the path it walks.
\<close>

fun insertStack :: "CallTreeNode \<Rightarrow> LineInfo list \<Rightarrow> Numeric \<Rightarrow> CallTreeNode" where
  "insertStack (CallTreeNode k n f l sv cv sp cp ch) [] v =
     CallTreeNode k n f l (addNumeric sv v) cv sp cp ch"
| "insertStack (CallTreeNode k n f l sv cv sp cp ch) (lineInfo # rest) v =
     (let fn = li_function lineInfo;
          key = identityKey fn (li_line lineInfo);
          child = (case map_of ch key of
                     Some c \<Rightarrow> c
                   | None \<Rightarrow>
                       CallTreeNode key (fn_name fn) (fn_filename fn)
                         (if li_line lineInfo = 0 then fn_startLine fn else li_line lineInfo)
                         (Number 0) (Number 0) 0 0 []);
          child1 = (case child of CallTreeNode k' n' f' l' sv' cv' sp' cp' ch' \<Rightarrow>
                      CallTreeNode k' n' f' l' sv' (addNumeric cv' v) sp' cp' ch')
      in CallTreeNode k n f l sv cv sp cp (AList.update key (insertStack child1 rest v) ch))"

text \<open>
  The frames of a sample from the root to the leaf: the stack from its last index
  down to \<open>0\<close>, the lines of each location in their order.
\<close>

definition framesRootToLeaf :: "Sample \<Rightarrow> LineInfo list" where
  "framesRootToLeaf sample = concat (map loc_lines (rev (smp_stack sample)))"

definition addSampleToTree :: "rat \<Rightarrow> CallTreeNode \<Rightarrow> Sample \<Rightarrow> CallTreeNode" where
  "addSampleToTree sampleTypeIndex rootNode sample =
     (let v = sampleValue sample sampleTypeIndex
      in if toNum v = 0 then rootNode else insertStack rootNode (framesRootToLeaf sample) v)"

text \<open>
  \<^verbatim>\<open>calculateTreePercentages\<close> (lines 261-272) calls itself for every child, one
  level of the tree deeper each time. A call that would be nested deeper than
  \<open>stackDepth\<close> raises \<^verbatim>\<open>RangeError\<close>, which ends the whole analysis.
  \<open>calculateChildren\<close> is the loop over \<^verbatim>\<open>node.children.values()\<close>.
\<close>

fun calculateTreePercentages :: "nat \<Rightarrow> Numeric \<Rightarrow> CallTreeNode \<Rightarrow> error + CallTreeNode"
  and calculateChildren ::
    "nat \<Rightarrow> Numeric \<Rightarrow> (string \<times> CallTreeNode) list \<Rightarrow> error + (string \<times> CallTreeNode) list"
where
  "calculateTreePercentages 0 totalValue node = Inl RangeError"
| "calculateTreePercentages (Suc stackDepth) totalValue (CallTreeNode k n f l sv cv sp cp ch) =
     (case calculateChildren stackDepth totalValue ch of
        Inl e \<Rightarrow> Inl e
      | Inr ch' \<Rightarrow>
          Inr (CallTreeNode k n f l sv cv (percent sv totalValue) (percent cv totalValue) ch'))"
| "calculateChildren stackDepth totalValue [] = Inr []"
| "calculateChildren stackDepth totalValue ((key, child) # others) =
     (case calculateTreePercentages stackDepth totalValue child of
        Inl e \<Rightarrow> Inl e
      | Inr child' \<Rightarrow>
          (case calculateChildren stackDepth totalValue others of
             Inl e \<Rightarrow> Inl e
           | Inr others' \<Rightarrow> Inr ((key, child') # others')))"

definition buildCallTree ::
  "nat \<Rightarrow> NormalizedProfile \<Rightarrow> rat \<Rightarrow> Numeric \<Rightarrow> error + CallTreeNode" where
  "buildCallTree stackDepth profile sampleTypeIndex totalValue =
     (let rootNode =
            (case createEmptyNode ''(root)'' of CallTreeNode k n f l sv cv sp cp ch \<Rightarrow>
               CallTreeNode k n f l sv totalValue sp 100 ch)
      in calculateTreePercentages stackDepth totalValue
           (foldl (addSampleToTree sampleTypeIndex) rootNode (prof_samples profile)))"

section \<open>Hotspot ranker\<close>

text \<open>
  \<^verbatim>\<open>Array.prototype.sort\<close> with a comparator is a stable sort: \<open>a\<close> goes before \<open>b\<close>
  when \<open>cmp a b\<close> is negative, and elements that compare equal keep their order.
  \<open>sortBy\<close> inserts the elements from the last to the first, each one before the
  first element that it does not have to follow. The comparators of the analyzer
  are differences of two doubles; the sign of such a difference is the sign of the
  exact difference, which is what the model computes.
\<close>

fun insortBy :: "('a \<Rightarrow> 'a \<Rightarrow> rat) \<Rightarrow> 'a \<Rightarrow> 'a list \<Rightarrow> 'a list" where
  "insortBy cmp a [] = [a]"
| "insortBy cmp a (b # rest) =
     (if cmp a b \<le> 0 then a # b # rest else b # insortBy cmp a rest)"

definition sortBy :: "('a \<Rightarrow> 'a \<Rightarrow> rat) \<Rightarrow> 'a list \<Rightarrow> 'a list" where
  "sortBy cmp xs = foldr (insortBy cmp) xs []"

text \<open>\<^verbatim>\<open>identifyHotspots\<close> (lines 277-306).\<close>

definition toHotspot :: "FunctionStats \<Rightarrow> Hotspot" where
  "toHotspot stats =
     \<lparr>hs_key = fs_key stats, hs_name = fs_name stats, hs_filename = fs_filename stats,
      hs_line = fs_line stats, hs_selfValue = fs_selfValue stats,
      hs_cumulativeValue = fs_cumulativeValue stats, hs_selfPercent = fs_selfPercent stats,
      hs_cumulativePercent = fs_cumulativePercent stats, hs_sampleCount = fs_sampleCount stats,
      hs_type = ''self'', hs_callers = fs_callers stats, hs_callees = fs_callees stats\<rparr>"

definition identifyHotspots :: "(string \<times> FunctionStats) list \<Rightarrow> rat \<Rightarrow> Hotspot list" where
  "identifyHotspots functionStats threshold =
     sortBy (\<lambda>a b. hs_selfPercent b - hs_selfPercent a)
       (map toHotspot
          (filter (\<lambda>stats. fl (threshold * 100) \<le> fs_selfPercent stats) (map snd functionStats)))"

section \<open>Critical path extractor\<close>

definition pathNode :: "CallTreeNode \<Rightarrow> PathNode" where
  "pathNode node =
     \<lparr>pn_name = ct_name node, pn_selfPercent = ct_selfPercent node,
      pn_cumulativePercent = ct_cumulativePercent node\<rparr>"

definition sortedChildren :: "CallTreeNode \<Rightarrow> CallTreeNode list" where
  "sortedChildren node =
     sortBy (\<lambda>a b. toNum (ct_cumulativeValue b) - toNum (ct_cumulativeValue a))
       (map snd (ct_children node))"

text \<open>
  \<^verbatim>\<open>traverse\<close> (lines 317-359) appends to the array \<^verbatim>\<open>paths\<close> shared by all its
  calls; the model passes the array through. It calls itself one level deeper for
  the hottest child and for the other children, and like
  \<^verbatim>\<open>calculateTreePercentages\<close> it raises \<^verbatim>\<open>RangeError\<close> when nested deeper than
  \<open>stackDepth\<close>. The sorted array of children is empty exactly when
  \<^verbatim>\<open>node.children.size\<close> is \<open>0\<close>. \<open>traverseOthers\<close> is the loop over
  \<^verbatim>\<open>sortedChildren[1..]\<close>, which stops as soon as \<^verbatim>\<open>paths\<close> holds \<^verbatim>\<open>maxPaths * 2\<close> paths.
  \<^verbatim>\<open>maxPaths\<close> is a natural number: the only call passes \<open>5\<close>.
\<close>

fun traverse ::
    "nat \<Rightarrow> nat \<Rightarrow> CallTreeNode \<Rightarrow> PathNode list \<Rightarrow> rat \<Rightarrow> CriticalPath list
       \<Rightarrow> error + CriticalPath list"
  and traverseOthers ::
    "nat \<Rightarrow> nat \<Rightarrow> CallTreeNode list \<Rightarrow> PathNode list \<Rightarrow> CriticalPath list
       \<Rightarrow> error + CriticalPath list"
where
  "traverse 0 maxPaths node currentPath cumulativePercent paths = Inl RangeError"
| "traverse (Suc stackDepth) maxPaths node currentPath cumulativePercent paths =
     (let newPath = currentPath @ [pathNode node]
      in case sortedChildren node of
           [] \<Rightarrow> Inr (paths @ [\<lparr>cp_path = newPath, cp_cumulativePercent = cumulativePercent\<rparr>])
         | hottestChild # others \<Rightarrow>
             (case traverse stackDepth maxPaths hottestChild newPath cumulativePercent paths of
                Inl e \<Rightarrow> Inl e
              | Inr paths1 \<Rightarrow> traverseOthers stackDepth maxPaths others newPath paths1))"
| "traverseOthers stackDepth maxPaths [] newPath paths = Inr paths"
| "traverseOthers stackDepth maxPaths (child # others) newPath paths =
     (if length paths < maxPaths * 2
      then (if 5 \<le> ct_cumulativePercent child
            then (case traverse stackDepth maxPaths child newPath (ct_cumulativePercent child) paths of
                    Inl e \<Rightarrow> Inl e
                  | Inr paths1 \<Rightarrow> traverseOthers stackDepth maxPaths others newPath paths1)
            else traverseOthers stackDepth maxPaths others newPath paths)
      else Inr paths)"

text \<open>
  \<^verbatim>\<open>extractCriticalPaths\<close> (lines 311-374); \<open>traverseRoots\<close> is its loop over the
  first \<^verbatim>\<open>maxPaths\<close> children of the root.
\<close>

fun traverseRoots ::
  "nat \<Rightarrow> nat \<Rightarrow> CallTreeNode list \<Rightarrow> CriticalPath list \<Rightarrow> error + CriticalPath list" where
  "traverseRoots stackDepth maxPaths [] paths = Inr paths"
| "traverseRoots stackDepth maxPaths (child # others) paths =
     (case traverse stackDepth maxPaths child [] (ct_cumulativePercent child) paths of
        Inl e \<Rightarrow> Inl e
      | Inr paths1 \<Rightarrow> traverseRoots stackDepth maxPaths others paths1)"

definition extractCriticalPaths :: "nat \<Rightarrow> CallTreeNode \<Rightarrow> nat \<Rightarrow> error + CriticalPath list" where
  "extractCriticalPaths stackDepth callTree maxPaths =
     (let sortedRootChildren = sortedChildren callTree
      in case traverseRoots stackDepth maxPaths (take maxPaths sortedRootChildren) [] of
           Inl e \<Rightarrow> Inl e
         | Inr paths \<Rightarrow>
             Inr (take maxPaths
                    (sortBy (\<lambda>a b. cp_cumulativePercent b - cp_cumulativePercent a) paths)))"

section \<open>Analysis orchestrator\<close>

text \<open>
  \<^verbatim>\<open>analyzeProfile\<close> (lines 35-96). \<^verbatim>\<open>profile.sampleTypes[sampleTypeIndex]\<close> is
  \<^verbatim>\<open>undefined\<close>, and the function throws, exactly when the index is not a position of
  the array; the default threshold is the double nearest to \<open>0.01\<close>. The total
  starts as the number \<open>0\<close>, so every sample value is added to it as a double.
\<close>

definition analyzeProfile ::
  "nat \<Rightarrow> NormalizedProfile \<Rightarrow> AnalyzeOptions \<Rightarrow> error + AnalysisResult" where
  "analyzeProfile stackDepth profile options =
     (let sampleTypeIndex = (case opt_sampleTypeIndex options of None \<Rightarrow> 0 | Some i \<Rightarrow> i);
          hotspotThreshold =
            (case opt_hotspotThreshold options of None \<Rightarrow> fl (1 / 100) | Some t \<Rightarrow> t)
      in if \<not> isIndex sampleTypeIndex (length (prof_sampleTypes profile))
         then Inl (Error (''Sample type index '' @ numberToString sampleTypeIndex
                            @ '' not found''))
         else
           (let sampleType = prof_sampleTypes profile ! nat \<lfloor>sampleTypeIndex\<rfloor>;
                totalValue = foldl (\<lambda>totalValue sample.
                                 addNumeric totalValue (sampleValue sample sampleTypeIndex))
                               (Number 0) (prof_samples profile)
            in if toNum totalValue = 0
               then Inr \<lparr>res_sampleType = sampleType, res_totalValue = Number 0,
                         res_totalSamples = length (prof_samples profile),
                         res_functionStats = [],
                         res_callTree = createEmptyNode ''(root)'',
                         res_hotspots = [], res_criticalPaths = [],
                         res_durationNanos = prof_durationNanos profile,
                         res_period = prof_period profile,
                         res_periodType = prof_periodType profile\<rparr>
               else
                 (let functionStats = aggregateFunctionStats profile sampleTypeIndex totalValue
                  in case buildCallTree stackDepth profile sampleTypeIndex totalValue of
                       Inl e \<Rightarrow> Inl e
                     | Inr callTree \<Rightarrow>
                         (let hotspots = identifyHotspots functionStats hotspotThreshold
                          in case extractCriticalPaths stackDepth callTree 5 of
                               Inl e \<Rightarrow> Inl e
                             | Inr criticalPaths \<Rightarrow>
                                 Inr \<lparr>res_sampleType = sampleType, res_totalValue = totalValue,
                                      res_totalSamples = length (prof_samples profile),
                                      res_functionStats = functionStats,
                                      res_callTree = callTree,
                                      res_hotspots = hotspots,
                                      res_criticalPaths = criticalPaths,
                                      res_durationNanos = prof_durationNanos profile,
                                      res_period = prof_period profile,
                                      res_periodType = prof_periodType profile\<rparr>))))"

section \<open>Notions used in the statements\<close>

text \<open>
  The index that \<^verbatim>\<open>analyzeProfile\<close> resolves from its options, the range of the
  declared sample types, and the total that it accumulates over the selected
  column.
\<close>

definition resolvedIndex :: "AnalyzeOptions \<Rightarrow> rat" where
  "resolvedIndex options = (case opt_sampleTypeIndex options of None \<Rightarrow> 0 | Some i \<Rightarrow> i)"

definition indexInRange :: "NormalizedProfile \<Rightarrow> rat \<Rightarrow> bool" where
  "indexInRange profile i = isIndex i (length (prof_sampleTypes profile))"

definition columnTotal :: "NormalizedProfile \<Rightarrow> rat \<Rightarrow> Numeric" where
  "columnTotal profile i =
     foldl (\<lambda>totalValue sample. addNumeric totalValue (sampleValue sample i))
       (Number 0) (prof_samples profile)"

text \<open>
  The number of levels of a tree (a node without children has one), the tree with
  the percentages of all its nodes set, the root that \<^verbatim>\<open>buildCallTree\<close> starts from,
  the tree that it has built when all samples are merged, and the largest number
  of frames in the stack of a sample that counts.
\<close>

definition maxList :: "nat list \<Rightarrow> nat" where
  "maxList ns = foldr max ns 0"

primrec treeHeight :: "CallTreeNode \<Rightarrow> nat" where
  "treeHeight (CallTreeNode k n f l sv cv sp cp ch) =
     Suc (maxList (map snd (map (map_prod id treeHeight) ch)))"

primrec withPercentages :: "Numeric \<Rightarrow> CallTreeNode \<Rightarrow> CallTreeNode" where
  "withPercentages totalValue (CallTreeNode k n f l sv cv sp cp ch) =
     CallTreeNode k n f l sv cv (percent sv totalValue) (percent cv totalValue)
       (map (map_prod id (withPercentages totalValue)) ch)"

definition seededRoot :: "Numeric \<Rightarrow> CallTreeNode" where
  "seededRoot totalValue =
     CallTreeNode ''(root)'' ''(root)'' [] 0 (Number 0) totalValue 0 100 []"

definition mergedTree :: "NormalizedProfile \<Rightarrow> rat \<Rightarrow> Numeric \<Rightarrow> CallTreeNode" where
  "mergedTree profile i totalValue =
     foldl (addSampleToTree i) (seededRoot totalValue) (prof_samples profile)"

definition deepestStack :: "NormalizedProfile \<Rightarrow> rat \<Rightarrow> nat" where
  "deepestStack profile i =
     maxList (map (\<lambda>sample. length (framesRootToLeaf sample))
       (filter (\<lambda>sample. toNum (sampleValue sample i) \<noteq> 0) (prof_samples profile)))"

text \<open>
  The sorted array holds the children of the node, each of them one level less
  high than the node; this is what the chain of hottest children below descends
  along.
\<close>

lemma maxList_simps [simp]: "maxList [] = 0" "maxList (n # ns) = max n (maxList ns)"
  by (simp_all add: maxList_def)

lemma maxList_le: "(maxList ns \<le> d) = (\<forall>n\<in>set ns. n \<le> d)"
  by (induction ns) auto

lemma maxList_append: "maxList (ms @ ns) = max (maxList ms) (maxList ns)"
  by (induction ms) auto

lemma treeHeight_pos: "0 < treeHeight node"
  by (cases node) simp

lemma treeHeight_children:
  "(treeHeight node \<le> Suc d) = (\<forall>c\<in>snd ` set (ct_children node). treeHeight c \<le> d)"
  by (cases node) (auto simp: maxList_le)

lemma mset_insortBy: "mset (insortBy cmp x xs) = add_mset x (mset xs)"
  by (induction xs) auto

lemma mset_sortBy: "mset (sortBy cmp xs) = mset xs"
  unfolding sortBy_def by (induction xs) (auto simp: mset_insortBy)

lemma set_sortBy: "set (sortBy cmp xs) = set xs"
  using mset_sortBy [of cmp xs] by (metis set_mset_mset)

lemma set_sortedChildren: "set (sortedChildren node) = snd ` set (ct_children node)"
  unfolding sortedChildren_def by (simp add: set_sortBy)

lemma treeHeight_sortedChildren:
  "c \<in> set (sortedChildren node) \<Longrightarrow> treeHeight c < treeHeight node"
proof -
  assume "c \<in> set (sortedChildren node)"
  then have "c \<in> snd ` set (ct_children node)" by (simp add: set_sortedChildren)
  moreover have "treeHeight node \<le> Suc (treeHeight node - 1)" by simp
  ultimately have "treeHeight c \<le> treeHeight node - 1"
    using treeHeight_children [of node "treeHeight node - 1"] by blast
  then show ?thesis using treeHeight_pos [of node] by linarith
qed

text \<open>
  For the critical paths: the chain from a node along the hottest child of each
  node down to a leaf; a recorded path that, below a given prefix, was anchored
  anew at one of its nodes, a sibling of a hottest child with at least 5 percent,
  whose cumulative percentage it carries; and a recorded path that carries the
  cumulative percentage of one of its own nodes.
\<close>

function hottestChain :: "CallTreeNode \<Rightarrow> PathNode list" where
  "hottestChain node =
     pathNode node #
       (case sortedChildren node of [] \<Rightarrow> [] | hottestChild # others \<Rightarrow> hottestChain hottestChild)"
  by pat_completeness auto
termination
proof (relation "measure treeHeight")
  show "wf (measure treeHeight)" by simp
next
  fix node c cs
  assume "sortedChildren node = c # cs"
  then show "(c, node) \<in> measure treeHeight"
    using treeHeight_sortedChildren [of c node] by simp
qed



declare traverse.simps [simp del] hottestChain.simps [simp del]

text \<open>
  A column whose additions are exact: every selected value is an integer, and the
  absolute values add up to at most \<open>2 ^ 53\<close>, so that no partial sum needs
  rounding.
\<close>

definition exactColumn :: "Numeric list \<Rightarrow> bool" where
  "exactColumn vs =
     ((\<forall>v\<in>set vs. toNum v \<in> \<int>) \<and> sum_list (map (\<lambda>v. \<bar>toNum v\<bar>) vs) \<le> 2 ^ 53)"

definition column :: "NormalizedProfile \<Rightarrow> rat \<Rightarrow> Numeric list" where
  "column profile i = map (\<lambda>sample. sampleValue sample i) (prof_samples profile)"

text \<open>The key of a frame and the tree node that \<open>insertStack\<close> creates for it.\<close>

definition frameKey :: "LineInfo \<Rightarrow> string" where
  "frameKey lineInfo = identityKey (li_function lineInfo) (li_line lineInfo)"

definition frameNode ::
  "LineInfo \<Rightarrow> Numeric \<Rightarrow> Numeric \<Rightarrow> rat \<Rightarrow> rat \<Rightarrow> (string \<times> CallTreeNode) list
     \<Rightarrow> CallTreeNode" where
  "frameNode lineInfo sv cv sp cp ch =
     CallTreeNode (frameKey lineInfo) (fn_name (li_function lineInfo))
       (fn_filename (li_function lineInfo))
       (if li_line lineInfo = 0 then fn_startLine (li_function lineInfo) else li_line lineInfo)
       sv cv sp cp ch"

text \<open>
  For the aggregator: the identity keys that occur in the stack of a sample, and
  the samples that credit a key (non-zero value, key somewhere in the stack).
\<close>

definition sampleKeys :: "Sample \<Rightarrow> string set" where
  "sampleKeys sample = frameKey ` set (concat (map loc_lines (smp_stack sample)))"

definition contributing :: "NormalizedProfile \<Rightarrow> rat \<Rightarrow> string \<Rightarrow> Sample list" where
  "contributing profile i k =
     filter (\<lambda>sample. toNum (sampleValue sample i) \<noteq> 0 \<and> k \<in> sampleKeys sample)
       (prof_samples profile)"

text \<open>
  Readings of a statistics map: the values stored under a key (those of a new row
  when the key is absent), and the invariant that every row is stored under its
  own key.
\<close>

definition cumAt :: "(string \<times> FunctionStats) list \<Rightarrow> string \<Rightarrow> Numeric" where
  "cumAt stats k =
     (case map_of stats k of None \<Rightarrow> Number 0 | Some row \<Rightarrow> fs_cumulativeValue row)"

definition countAt :: "(string \<times> FunctionStats) list \<Rightarrow> string \<Rightarrow> int" where
  "countAt stats k = (case map_of stats k of None \<Rightarrow> 0 | Some row \<Rightarrow> fs_sampleCount row)"

definition keysOk :: "(string \<times> FunctionStats) list \<Rightarrow> bool" where
  "keysOk stats = (\<forall>k row. map_of stats k = Some row \<longrightarrow> fs_key row = k)"

text \<open>
  The effect of a part of the walk over one sample of value \<open>v\<close> that visits the keys
  \<open>K\<close>, started with the set \<open>seen\<close>: the keys are added to the map and to the set,
  and every key of \<open>K\<close> not seen before gets \<open>v\<close> added once and one sample more.
\<close>

definition credited ::
  "Numeric \<Rightarrow> string set \<Rightarrow> (string \<times> FunctionStats) list \<Rightarrow> string set
     \<Rightarrow> (string \<times> FunctionStats) list \<times> string set \<Rightarrow> bool" where
  "credited v K stats seen res =
     (keysOk (fst res) \<and> snd res = seen \<union> K
      \<and> fst ` set (fst res) = fst ` set stats \<union> K
      \<and> (\<forall>k. cumAt (fst res) k
             = (if k \<in> K - seen then addNumeric (cumAt stats k) v else cumAt stats k))
      \<and> (\<forall>k. countAt (fst res) k = countAt stats k + (if k \<in> K - seen then 1 else 0)))"

definition locKeys :: "Sample \<Rightarrow> nat \<Rightarrow> string set" where
  "locKeys sample i = frameKey ` set (loc_lines (smp_stack sample ! i))"

text \<open>
  The unit formatting in the words of its description: a unit is a time unit
  (nanoseconds), a byte unit, a count unit or unknown; each kind has its thresholds
  in descending order with the suffix of the scaled value, and the suffix of the
  unscaled one. The first threshold that the value reaches scales it, printed with
  \<^verbatim>\<open>toFixed(2)\<close>; a value below all thresholds is printed as the number it is.
  \<open>readNat\<close> reads a string of decimal digits.
\<close>

datatype unitKind = TimeUnit | ByteUnit | CountUnit | UnknownUnit

definition unitKindOf :: "string \<Rightarrow> unitKind" where
  "unitKindOf unit =
     (if toLowerCase unit \<in> {''nanoseconds'', ''ns''} then TimeUnit
      else if toLowerCase unit = ''bytes'' then ByteUnit
      else if toLowerCase unit \<in> {''count'', ''samples''} then CountUnit
      else UnknownUnit)"

fun scaleSteps :: "unitKind \<Rightarrow> (rat \<times> string) list" where
  "scaleSteps TimeUnit = [(10 ^ 9, ''s''), (10 ^ 6, ''ms''), (10 ^ 3, [CHR 0xB5, CHR ''s''])]"
| "scaleSteps ByteUnit = [(10 ^ 9, '' GB''), (10 ^ 6, '' MB''), (10 ^ 3, '' KB'')]"
| "scaleSteps CountUnit = [(10 ^ 6, ''M''), (10 ^ 3, ''K'')]"
| "scaleSteps UnknownUnit = []"

fun baseSuffix :: "unitKind \<Rightarrow> string \<Rightarrow> string" where
  "baseSuffix TimeUnit unit = ''ns''"
| "baseSuffix ByteUnit unit = '' B''"
| "baseSuffix CountUnit unit = []"
| "baseSuffix UnknownUnit unit = '' '' @ unit"

definition formatHuman :: "Numeric \<Rightarrow> string \<Rightarrow> string" where
  "formatHuman v unit =
     (case find (\<lambda>(threshold, suffix). threshold \<le> toNum v) (scaleSteps (unitKindOf unit)) of
        Some (threshold, suffix) \<Rightarrow> toFixed2 (fl (toNum v / threshold)) @ suffix
      | None \<Rightarrow> numberToString (toNum v) @ baseSuffix (unitKindOf unit) unit)"

definition readNat :: "string \<Rightarrow> int" where
  "readNat s = foldl (\<lambda>n c. 10 * n + (of_char c - 48)) 0 s"

section \<open>Example inputs\<close>

text \<open>
  Small profiles for the concrete instances below: a frame is a function name at
  line 7 of \<^verbatim>\<open>app.js\<close>, a location is the list of its (inlined) frames, a sample is
  a stack of locations (index 0 is the leaf) with one value.
\<close>

definition exFunction :: "string \<Rightarrow> string \<Rightarrow> FunctionInfo" where
  "exFunction name file =
     \<lparr>fn_id = Number 1, fn_name = name, fn_systemName = name, fn_filename = file,
      fn_startLine = 1\<rparr>"

definition exFrame :: "string \<Rightarrow> LineInfo" where
  "exFrame name =
     \<lparr>li_functionId = Number 1, li_line = 7, li_function = exFunction name ''app.js''\<rparr>"

definition exLocation :: "string list \<Rightarrow> Location" where
  "exLocation names = \<lparr>loc_id = Number 1, loc_address = Number 0, loc_lines = map exFrame names\<rparr>"

definition exSample :: "string list list \<Rightarrow> Numeric \<Rightarrow> Sample" where
  "exSample stack v = \<lparr>smp_stack = map exLocation stack, smp_values = [v], smp_labels = []\<rparr>"

definition exProfile :: "Sample list \<Rightarrow> NormalizedProfile" where
  "exProfile samples =
     \<lparr>prof_sampleTypes = [\<lparr>st_type = ''samples'', st_unit = ''count''\<rparr>],
      prof_samples = samples, prof_dropFrames = [], prof_keepFrames = [],
      prof_comment = [], prof_defaultSampleType = Number 0, prof_durationNanos = Number 0,
      prof_timeNanos = Number 0, prof_period = Number 1, prof_periodType = None\<rparr>"

definition exOptions :: "rat option \<Rightarrow> AnalyzeOptions" where
  "exOptions i = \<lparr>opt_sampleTypeIndex = i, opt_hotspotThreshold = None\<rparr>"




section \<open>Rounding\<close>

lemma bitLength_nonneg: "0 \<le> bitLength n"
proof (induction n rule: bitLength.induct)
  case (1 n)
  then show ?case by (subst bitLength.simps) auto
qed

lemma bitLength_bound: "n < 2 ^ k \<Longrightarrow> bitLength n \<le> int k"
proof (induction k arbitrary: n)
  case 0
  then show ?case by (subst bitLength.simps) simp
next
  case (Suc k)
  show ?case
  proof (cases "n \<le> 0")
    case True
    then show ?thesis by (subst bitLength.simps) simp
  next
    case False
    from Suc.prems have "n div 2 < 2 ^ k" by simp
    from Suc.IH [OF this] False show ?thesis by (subst bitLength.simps) simp
  qed
qed

lemma pow2_pos: "0 < pow2 e"
  by (simp add: pow2_def)

lemma roundHalfEven_int: "roundHalfEven (of_int z) = z"
  by (simp add: roundHalfEven_def)

lemma fl_exact:
  assumes "\<bar>x\<bar> / pow2 (max (binExp \<bar>x\<bar> - 52) (- 1074)) = of_int z"
  shows "fl x = x"
proof (cases "x = 0")
  case True
  then show ?thesis by (simp add: fl_def)
next
  case False
  define e where "e = max (binExp \<bar>x\<bar> - 52) (- 1074)"
  have p: "pow2 e \<noteq> 0" using pow2_pos [of e] by simp
  from assms have "of_int z * pow2 e = \<bar>x\<bar>"
    using p by (simp add: field_simps e_def)
  then have "sgn x * of_int z * pow2 e = sgn x * \<bar>x\<bar>"
    by (simp add: mult.assoc)
  with False assms show ?thesis
    by (simp add: fl_def Let_def roundHalfEven_int sgn_mult_abs e_def)
qed

lemma binExp_int:
  assumes "0 < n"
  shows "binExp (of_int n) = (if pow2 (bitLength n - 1) \<le> of_int n then bitLength n - 1 else bitLength n - 2)"
proof -
  have "bitLength 1 = 1" by (subst bitLength.simps, subst bitLength.simps) simp
  then show ?thesis by (simp add: binExp_def Let_def)
qed

lemma fl_int:
  assumes "\<bar>n\<bar> \<le> 2 ^ 53"
  shows "fl (of_int n) = of_int n"
proof (cases "n = 0")
  case True
  then show ?thesis by (simp add: fl_def)
next
  case False
  define m where "m = \<bar>n\<bar>"
  with False assms have m: "0 < m" "m \<le> 2 ^ 53" by auto
  then have "m < 2 ^ 54" by simp
  from bitLength_bound [OF this] have b: "bitLength m \<le> 54" by simp
  have b1: "1 \<le> bitLength m"
    using m(1) bitLength_nonneg [of "m div 2"] by (subst bitLength.simps) simp
  define e where "e = binExp (of_int m)"
  have e: "e = (if pow2 (bitLength m - 1) \<le> of_int m then bitLength m - 1 else bitLength m - 2)"
    unfolding e_def by (rule binExp_int [OF m(1)])
  with b1 have normal: "max (e - 52) (- 1074) = e - 52" by (simp split: if_splits)
  have "\<exists>z. of_int m / pow2 (e - 52) = of_int z"
  proof (cases "e \<le> 52")
    case True
    then have "pow2 (e - 52) = 1 / 2 ^ nat (52 - e)"
      by (cases "e = 52") (simp_all add: pow2_def)
    then have "of_int m / pow2 (e - 52) = of_int (m * 2 ^ nat (52 - e))" by simp
    then show ?thesis by blast
  next
    case False
    with e b have e53: "e = 53" and bl: "bitLength m = 54"
      and le': "pow2 (bitLength m - 1) \<le> of_int m"
      by (auto split: if_splits)
    from le' bl have le: "pow2 53 \<le> of_int m" by simp
    from le have "(2::rat) ^ 53 \<le> of_int m" by (simp add: pow2_def)
    then have "(2::int) ^ 53 \<le> m" by (metis of_int_le_iff of_int_numeral of_int_power)
    with m(2) have "m = 2 ^ 53" by simp
    then have "of_int m / pow2 (e - 52) = of_int (2 ^ 52)"
      using e53 by (simp add: pow2_def)
    then show ?thesis by blast
  qed
  then obtain z where
    "\<bar>of_int n :: rat\<bar> / pow2 (max (binExp \<bar>of_int n\<bar> - 52) (- 1074)) = of_int z"
    using normal unfolding e_def m_def by auto
  then show ?thesis by (rule fl_exact)
qed

lemma fl_zero: "fl 0 = 0"
  by (simp add: fl_def)

lemma fl_one: "fl 1 = 1"
  using fl_int [of 1] by simp

lemma fl_hundred: "fl 100 = 100"
  using fl_int [of 100] by simp

section \<open>The depth of the recursion over the call tree\<close>

lemma treeHeight_withPercentages: "treeHeight (withPercentages t node) = treeHeight node"
proof (induction node)
  case (CallTreeNode k n f l sv cv sp cp ch)
  have "\<And>p. p \<in> set ch \<Longrightarrow> treeHeight (withPercentages t (snd p)) = treeHeight (snd p)"
    using CallTreeNode.IH by (simp add: snds.simps)
  then have eq: "map (\<lambda>p. treeHeight (withPercentages t (snd p))) ch
                   = map (\<lambda>p. treeHeight (snd p)) ch"
    by simp
  show ?case by (simp add: comp_def eq)
qed

lemma calculate_depth:
  "calculateTreePercentages d t node
     = (if treeHeight node \<le> d then Inr (withPercentages t node) else Inl RangeError)"
  "calculateChildren d t ch
     = (if \<forall>c\<in>snd ` set ch. treeHeight c \<le> d
        then Inr (map (map_prod id (withPercentages t)) ch) else Inl RangeError)"
proof (induction d t node and d t ch rule: calculateTreePercentages_calculateChildren.induct)
  case (1 totalValue node)
  then show ?case using treeHeight_pos [of node] by simp
next
  case (2 stackDepth totalValue k n f l sv cv sp cp ch)
  then show ?case by (auto simp: maxList_le)
next
  case (3 stackDepth totalValue)
  then show ?case by simp
next
  case (4 stackDepth totalValue key child others)
  show ?case
  proof (cases "treeHeight child \<le> stackDepth")
    case False
    with "4.IH"(1) show ?thesis by simp
  next
    case True
    with "4.IH"(1) have c: "calculateTreePercentages stackDepth totalValue child
        = Inr (withPercentages totalValue child)" by simp
    from "4.IH"(2) [OF c] c True show ?thesis by auto
  qed
qed

lemma maxList_member: "n \<in> set ns \<Longrightarrow> n \<le> maxList ns"
  by (induction ns) auto

lemma treeHeight_child:
  "map_of ch key = Some c \<Longrightarrow> treeHeight c \<le> maxList (map snd (map (map_prod id treeHeight) ch))"
proof -
  assume "map_of ch key = Some c"
  then have "(key, c) \<in> set ch" by (rule map_of_SomeD)
  then have "treeHeight c \<in> set (map snd (map (map_prod id treeHeight) ch))" by force
  then show ?thesis by (rule maxList_member)
qed

lemma maxList_update:
  assumes "\<And>c. map_of ch key = Some c \<Longrightarrow> treeHeight c \<le> treeHeight c'"
  shows "maxList (map snd (map (map_prod id treeHeight) (AList.update key c' ch)))
           = max (maxList (map snd (map (map_prod id treeHeight) ch))) (treeHeight c')"
  using assms
proof (induction ch)
  case Nil
  then show ?case by simp
next
  case (Cons p ch)
  show ?case
  proof (cases "fst p = key")
    case True
    with Cons.prems [of "snd p"] have "treeHeight (snd p) \<le> treeHeight c'" by simp
    with True show ?thesis by (cases p) auto
  next
    case False
    with Cons.prems have "\<And>c. map_of ch key = Some c \<Longrightarrow> treeHeight c \<le> treeHeight c'"
      by (cases p) auto
    from Cons.IH [OF this] False show ?thesis by (cases p) auto
  qed
qed

lemma treeHeight_insertStack:
  "treeHeight (insertStack node frames v) = max (treeHeight node) (Suc (length frames))"
proof (induction frames arbitrary: node)
  case Nil
  then show ?case using treeHeight_pos [of node] by (cases node) auto
next
  case (Cons lineInfo rest)
  obtain k n f l sv cv sp cp ch where node: "node = CallTreeNode k n f l sv cv sp cp ch"
    by (cases node)
  define key where "key = identityKey (li_function lineInfo) (li_line lineInfo)"
  define child where "child = (case map_of ch key of
                     Some c \<Rightarrow> c
                   | None \<Rightarrow>
                       CallTreeNode key (fn_name (li_function lineInfo))
                         (fn_filename (li_function lineInfo))
                         (if li_line lineInfo = 0 then fn_startLine (li_function lineInfo)
                          else li_line lineInfo)
                         (Number 0) (Number 0) 0 0 [])"
  define child1 where "child1 = (case child of CallTreeNode k' n' f' l' sv' cv' sp' cp' ch' \<Rightarrow>
                      CallTreeNode k' n' f' l' sv' (addNumeric cv' v) sp' cp' ch')"
  have h1: "treeHeight child1 = treeHeight child"
    unfolding child1_def by (cases child) simp
  have ins: "insertStack node (lineInfo # rest) v
      = CallTreeNode k n f l sv cv sp cp (AList.update key (insertStack child1 rest v) ch)"
    unfolding node child1_def child_def key_def by (simp add: Let_def)
  have h': "treeHeight (insertStack child1 rest v) = max (treeHeight child) (Suc (length rest))"
    using Cons.IH [of child1] h1 by simp
  have pre: "\<And>c. map_of ch key = Some c \<Longrightarrow> treeHeight c \<le> treeHeight (insertStack child1 rest v)"
    unfolding h' child_def by simp
  have "Suc (treeHeight child) \<le> max (treeHeight node) (Suc (Suc (length rest)))"
  proof (cases "map_of ch key")
    case None
    then show ?thesis by (simp add: child_def)
  next
    case (Some c)
    from treeHeight_child [OF this] Some show ?thesis by (simp add: child_def node)
  qed
  moreover have "treeHeight (insertStack node (lineInfo # rest) v)
      = Suc (max (maxList (map snd (map (map_prod id treeHeight) ch)))
               (max (treeHeight child) (Suc (length rest))))"
    by (simp only: ins treeHeight.simps maxList_update [OF pre] h')
  moreover have "treeHeight node = Suc (maxList (map snd (map (map_prod id treeHeight) ch)))"
    by (simp only: node treeHeight.simps)
  ultimately have "treeHeight (insertStack node (lineInfo # rest) v)
      = max (treeHeight node) (Suc (Suc (length rest)))"
    by linarith
  then show ?case by simp
qed

lemma treeHeight_addSamples:
  "treeHeight (foldl (addSampleToTree i) node samples)
     = max (treeHeight node)
         (Suc (maxList (map (\<lambda>sample. length (framesRootToLeaf sample))
            (filter (\<lambda>sample. toNum (sampleValue sample i) \<noteq> 0) samples))))"
proof (induction samples arbitrary: node)
  case Nil
  then show ?case using treeHeight_pos [of node] by simp
next
  case (Cons sample samples)
  show ?case
  proof (cases "toNum (sampleValue sample i) = 0")
    case True
    then show ?thesis using Cons.IH [of node] by (simp add: addSampleToTree_def)
  next
    case False
    then show ?thesis
      using Cons.IH [of "insertStack node (framesRootToLeaf sample) (sampleValue sample i)"]
      by (simp add: addSampleToTree_def treeHeight_insertStack max_def)
  qed
qed

lemma treeHeight_mergedTree: "treeHeight (mergedTree profile i t) = Suc (deepestStack profile i)"
  unfolding mergedTree_def deepestStack_def
  by (simp add: treeHeight_addSamples seededRoot_def)

lemma buildCallTree_depth:
  "buildCallTree d profile i t
     = (if deepestStack profile i < d then Inr (withPercentages t (mergedTree profile i t))
        else Inl RangeError)"
proof -
  have "buildCallTree d profile i t = calculateTreePercentages d t (mergedTree profile i t)"
    unfolding buildCallTree_def mergedTree_def seededRoot_def createEmptyNode_def
    by (simp add: Let_def)
  then show ?thesis
    by (simp add: calculate_depth treeHeight_mergedTree Suc_le_eq)
qed

section \<open>Sorting\<close>







section \<open>The walk over the call tree\<close>




text \<open>With room for as many nested calls as the tree has levels, the walk returns.\<close>

lemma traverse_returns:
  "treeHeight node \<le> stackDepth \<Longrightarrow>
   \<exists>res. traverse stackDepth maxPaths node currentPath anchor paths = Inr res"
  and traverseOthers_returns:
  "\<forall>c\<in>set children. treeHeight c \<le> stackDepth \<Longrightarrow>
   \<exists>res. traverseOthers stackDepth maxPaths children newPath paths = Inr res"
proof (induction stackDepth maxPaths node currentPath anchor paths
    and stackDepth maxPaths children newPath paths
    rule: traverse_traverseOthers.induct)
  case (1 maxPaths node currentPath cumulativePercent paths)
  then show ?case using treeHeight_pos [of node] by simp
next
  case (2 stackDepth maxPaths node currentPath cumulativePercent paths)
  let ?newPath = "currentPath @ [pathNode node]"
  show ?case
  proof (cases "sortedChildren node")
    case Nil
    then show ?thesis by (simp add: traverse.simps Let_def)
  next
    case (Cons hottestChild others)
    have low: "\<forall>c\<in>set (hottestChild # others). treeHeight c \<le> stackDepth"
      using treeHeight_sortedChildren [of _ node] "2.prems" Cons by fastforce
    from "2.IH"(1) [OF refl Cons] low obtain paths1 where
      t1: "traverse stackDepth maxPaths hottestChild ?newPath cumulativePercent paths = Inr paths1"
      by auto
    from "2.IH"(2) [OF refl Cons t1] low obtain res where
      "traverseOthers stackDepth maxPaths others ?newPath paths1 = Inr res"
      by auto
    with t1 Cons show ?thesis by (simp add: traverse.simps Let_def)
  qed
next
  case (3 stackDepth maxPaths newPath paths)
  then show ?case by simp
next
  case (4 stackDepth maxPaths child others newPath paths)
  show ?case
  proof (cases "length paths < maxPaths * 2")
    case False
    then show ?thesis by simp
  next
    case True
    show ?thesis
    proof (cases "5 \<le> ct_cumulativePercent child")
      case False
      with True "4.IH"(3) [OF True False] "4.prems" show ?thesis by simp
    next
      case hot: True
      from "4.IH"(1) [OF True hot] "4.prems" obtain paths1 where
        t1: "traverse stackDepth maxPaths child newPath (ct_cumulativePercent child) paths
               = Inr paths1"
        by auto
      from "4.IH"(2) [OF True hot t1] "4.prems" obtain res where
        "traverseOthers stackDepth maxPaths others newPath paths1 = Inr res"
        by auto
      with t1 True hot show ?thesis by simp
    qed
  qed
qed














lemma traverseRoots_returns:
  "\<forall>c\<in>set children. treeHeight c \<le> stackDepth \<Longrightarrow>
   \<exists>res. traverseRoots stackDepth maxPaths children paths = Inr res"
proof (induction children arbitrary: paths)
  case Nil
  then show ?case by simp
next
  case (Cons child children)
  from traverse_returns [of child stackDepth maxPaths "[]" "ct_cumulativePercent child" paths]
    Cons.prems
  obtain paths1 where
    "traverse stackDepth maxPaths child [] (ct_cumulativePercent child) paths = Inr paths1"
    by auto
  with Cons.IH [of paths1] Cons.prems show ?case by auto
qed

lemma extract_returns:
  assumes "treeHeight callTree \<le> Suc stackDepth"
  shows "\<exists>found. extractCriticalPaths stackDepth callTree maxPaths = Inr found"
proof -
  have "\<forall>c\<in>set (take maxPaths (sortedChildren callTree)). treeHeight c \<le> stackDepth"
    using treeHeight_sortedChildren [of _ callTree] assms
    by (fastforce dest: in_set_takeD)
  from traverseRoots_returns [OF this, of maxPaths "[]"] show ?thesis
    unfolding extractCriticalPaths_def Let_def by auto
qed

lemma length_extractCriticalPaths:
  "extractCriticalPaths stackDepth callTree maxPaths = Inr found \<Longrightarrow> length found \<le> maxPaths"
  unfolding extractCriticalPaths_def Let_def by (auto split: sum.splits)

section \<open>Sums of doubles\<close>

lemma addNumeric_Number: "addNumeric (Number a) v = Number (fl (a + toNum v))"
  by (cases v) simp_all

lemma columnTotal_foldl: "columnTotal profile i = foldl addNumeric (Number 0) (column profile i)"
  unfolding columnTotal_def column_def by (simp add: foldl_map)

lemma foldl_addNumeric_exact:
  assumes "\<forall>v\<in>set vs. toNum v \<in> \<int>" and "a \<in> \<int>"
    and "\<bar>a\<bar> + sum_list (map (\<lambda>v. \<bar>toNum v\<bar>) vs) \<le> 2 ^ 53"
  shows "foldl addNumeric (Number a) vs = Number (a + sum_list (map toNum vs))"
  using assms
proof (induction vs arbitrary: a)
  case Nil
  then show ?case by simp
next
  case (Cons v vs)
  from Cons.prems have "a + toNum v \<in> \<int>" by simp
  then obtain n where n: "a + toNum v = of_int n" by (auto elim: Ints_cases)
  have nonneg: "0 \<le> sum_list (map (\<lambda>v. \<bar>toNum v\<bar>) vs)"
    by (rule sum_list_nonneg) auto
  have tri: "\<bar>a + toNum v\<bar> \<le> \<bar>a\<bar> + \<bar>toNum v\<bar>" by simp
  with Cons.prems(3) nonneg have "\<bar>a + toNum v\<bar> \<le> 2 ^ 53" by simp
  with n have "\<bar>(of_int n :: rat)\<bar> \<le> 2 ^ 53" by simp
  then have "\<bar>n\<bar> \<le> 2 ^ 53"
    by (metis of_int_abs of_int_le_iff of_int_numeral of_int_power)
  from fl_int [OF this] n have exact: "fl (a + toNum v) = a + toNum v" by simp
  have "foldl addNumeric (Number (a + toNum v)) vs
          = Number (a + toNum v + sum_list (map toNum vs))"
  proof (rule Cons.IH)
    show "\<forall>v\<in>set vs. toNum v \<in> \<int>" using Cons.prems(1) by simp
    show "a + toNum v \<in> \<int>" by fact
    show "\<bar>a + toNum v\<bar> + sum_list (map (\<lambda>v. \<bar>toNum v\<bar>) vs) \<le> 2 ^ 53"
      using Cons.prems(3) tri by simp
  qed
  then show ?case by (simp add: addNumeric_Number exact add.assoc)
qed

lemma foldl_addNumeric_exactColumn:
  "exactColumn vs \<Longrightarrow> foldl addNumeric (Number 0) vs = Number (sum_list (map toNum vs))"
  using foldl_addNumeric_exact [of vs 0] by (simp add: exactColumn_def)

lemma foldl_addNumeric_zeros:
  "\<forall>v\<in>set vs. toNum v = 0 \<Longrightarrow> foldl addNumeric (Number 0) vs = Number 0"
  by (induction vs) (simp_all add: addNumeric_Number fl_zero)

section \<open>The four outcomes of the orchestrator\<close>

lemma analyzeProfile_error:
  "\<not> indexInRange profile (resolvedIndex options) \<Longrightarrow>
   analyzeProfile stackDepth profile options =
     Inl (Error (''Sample type index '' @ numberToString (resolvedIndex options) @ '' not found''))"
  unfolding analyzeProfile_def resolvedIndex_def indexInRange_def Let_def by simp

lemma analyzeProfile_zero:
  "indexInRange profile (resolvedIndex options) \<Longrightarrow>
   toNum (columnTotal profile (resolvedIndex options)) = 0 \<Longrightarrow>
   analyzeProfile stackDepth profile options =
     Inr \<lparr>res_sampleType = prof_sampleTypes profile ! nat \<lfloor>resolvedIndex options\<rfloor>,
          res_totalValue = Number 0,
          res_totalSamples = length (prof_samples profile),
          res_functionStats = [],
          res_callTree = createEmptyNode ''(root)'',
          res_hotspots = [], res_criticalPaths = [],
          res_durationNanos = prof_durationNanos profile,
          res_period = prof_period profile,
          res_periodType = prof_periodType profile\<rparr>"
  unfolding analyzeProfile_def resolvedIndex_def indexInRange_def columnTotal_def Let_def
  by simp

lemma analyzeProfile_deep:
  "indexInRange profile (resolvedIndex options) \<Longrightarrow>
   toNum (columnTotal profile (resolvedIndex options)) \<noteq> 0 \<Longrightarrow>
   stackDepth \<le> deepestStack profile (resolvedIndex options) \<Longrightarrow>
   analyzeProfile stackDepth profile options = Inl RangeError"
  unfolding analyzeProfile_def Let_def
  by (simp add: buildCallTree_depth resolvedIndex_def indexInRange_def columnTotal_def)

lemma analyzeProfile_nonzero:
  assumes "indexInRange profile (resolvedIndex options)"
    and "toNum (columnTotal profile (resolvedIndex options)) \<noteq> 0"
    and "deepestStack profile (resolvedIndex options) < stackDepth"
  shows "analyzeProfile stackDepth profile options =
     Inr \<lparr>res_sampleType = prof_sampleTypes profile ! nat \<lfloor>resolvedIndex options\<rfloor>,
          res_totalValue = columnTotal profile (resolvedIndex options),
          res_totalSamples = length (prof_samples profile),
          res_functionStats =
            aggregateFunctionStats profile (resolvedIndex options)
              (columnTotal profile (resolvedIndex options)),
          res_callTree =
            withPercentages (columnTotal profile (resolvedIndex options))
              (mergedTree profile (resolvedIndex options)
                 (columnTotal profile (resolvedIndex options))),
          res_hotspots =
            identifyHotspots
              (aggregateFunctionStats profile (resolvedIndex options)
                 (columnTotal profile (resolvedIndex options)))
              (case opt_hotspotThreshold options of None \<Rightarrow> fl (1 / 100) | Some t \<Rightarrow> t),
          res_criticalPaths =
            projr (extractCriticalPaths stackDepth
              (withPercentages (columnTotal profile (resolvedIndex options))
                 (mergedTree profile (resolvedIndex options)
                    (columnTotal profile (resolvedIndex options)))) 5),
          res_durationNanos = prof_durationNanos profile,
          res_period = prof_period profile,
          res_periodType = prof_periodType profile\<rparr>"
proof -
  let ?i = "resolvedIndex options"
  let ?t = "columnTotal profile ?i"
  let ?tree = "withPercentages ?t (mergedTree profile ?i ?t)"
  have "treeHeight ?tree \<le> Suc stackDepth"
    using assms(3) by (simp add: treeHeight_withPercentages treeHeight_mergedTree)
  from extract_returns [OF this, of 5] obtain found where
    "extractCriticalPaths stackDepth ?tree 5 = Inr found" ..
  with assms show ?thesis
    unfolding analyzeProfile_def Let_def
    by (simp add: buildCallTree_depth resolvedIndex_def indexInRange_def columnTotal_def)
qed

lemma analyzeProfile_cases:
  obtains (invalid) "\<not> indexInRange profile (resolvedIndex options)"
  | (zero) "indexInRange profile (resolvedIndex options)"
      "toNum (columnTotal profile (resolvedIndex options)) = 0"
  | (deep) "indexInRange profile (resolvedIndex options)"
      "toNum (columnTotal profile (resolvedIndex options)) \<noteq> 0"
      "stackDepth \<le> deepestStack profile (resolvedIndex options)"
  | (nonzero) "indexInRange profile (resolvedIndex options)"
      "toNum (columnTotal profile (resolvedIndex options)) \<noteq> 0"
      "deepestStack profile (resolvedIndex options) < stackDepth"
  by (meson not_le)

lemma deepestStack_example:
  "deepestStack (exProfile [exSample (replicate n [name]) (Number 1)]) 0 = n"
proof -
  have "length (concat (map loc_lines (rev (map exLocation (replicate n [name]))))) = n"
    by (induction n) (simp_all add: exLocation_def)
  then show ?thesis
    by (simp add: deepestStack_def exProfile_def exSample_def sampleValue_def isIndex_def
        framesRootToLeaf_def)
qed

section \<open>Error handling\<close>

text \<open>
  Claim C6, amended. \<open>analyzeProfile\<close> fails with the error about the index exactly
  when the resolved sample-type index (\<open>0\<close> when the option is omitted) is not a
  position of the declared sample types: negative, too large or not an integer.
  The check precedes any look at the samples. The analysis can fail in one other
  way, with the \<^verbatim>\<open>RangeError\<close> of a call stack that is used up; this happens exactly
  when the index is valid, the total is not zero, and a sample that counts has at
  least as many frames as the call stack has room for nested calls.
\<close>

theorem analyzeProfile_errors:
  "(analyzeProfile stackDepth profile options
      = Inl (Error (''Sample type index '' @ numberToString (resolvedIndex options)
                      @ '' not found'')))
     = (\<not> indexInRange profile (resolvedIndex options))
   \<and> (analyzeProfile stackDepth profile options = Inl RangeError)
       = (indexInRange profile (resolvedIndex options)
          \<and> toNum (columnTotal profile (resolvedIndex options)) \<noteq> 0
          \<and> stackDepth \<le> deepestStack profile (resolvedIndex options))
   \<and> (\<forall>e. analyzeProfile stackDepth profile options = Inl e \<longrightarrow>
          e = Error (''Sample type index '' @ numberToString (resolvedIndex options)
                       @ '' not found'')
          \<or> e = RangeError)"
proof (cases rule: analyzeProfile_cases [where profile = profile and options = options and stackDepth = stackDepth])
  case invalid
  then show ?thesis by (simp add: analyzeProfile_error)
next
  case zero
  then show ?thesis by (simp add: analyzeProfile_zero)
next
  case deep
  then show ?thesis by (simp add: analyzeProfile_deep)
next
  case nonzero
  then show ?thesis by (simp add: analyzeProfile_nonzero)
qed

theorem analyzeProfile_errors_witness:
  "analyzeProfile 10000 (exProfile [exSample [[''A'']] (Number 10)]) (exOptions (Some (- 1)))
     = Inl (Error ''Sample type index -1 not found'')
   \<and> \<not> indexInRange (exProfile [exSample [[''A'']] (Number 10)])
         (resolvedIndex (exOptions (Some (- 1))))
   \<and> analyzeProfile 10000 (exProfile [exSample [[''A'']] (Number 10)]) (exOptions (Some (1 / 2)))
     = Inl (Error ''Sample type index 0.5 not found'')
   \<and> analyzeProfile 10000 (exProfile [exSample [[''A'']] (Number 10)]) (exOptions (Some 1))
     = Inl (Error ''Sample type index 1 not found'')"
proof -
  let ?p = "exProfile [exSample [[''A'']] (Number 10)]"
  have out: "\<not> indexInRange ?p (resolvedIndex (exOptions (Some (- 1))))"
    "\<not> indexInRange ?p (resolvedIndex (exOptions (Some (1 / 2))))"
    "\<not> indexInRange ?p (resolvedIndex (exOptions (Some 1)))"
    by code_simp+
  have msg: "numberToString (resolvedIndex (exOptions (Some (- 1)))) = ''-1''"
    "numberToString (resolvedIndex (exOptions (Some (1 / 2)))) = ''0.5''"
    "numberToString (resolvedIndex (exOptions (Some 1))) = ''1''"
    by code_simp+
  show ?thesis
    using analyzeProfile_errors [of 10000 ?p "exOptions (Some (- 1))"]
      analyzeProfile_errors [of 10000 ?p "exOptions (Some (1 / 2))"]
      analyzeProfile_errors [of 10000 ?p "exOptions (Some 1)"] out msg
    by simp
qed

text \<open>
  The claim as stated fails on a valid index: with room for \<open>10000\<close> nested calls,
  a profile whose one sample has a stack of \<open>10000\<close> frames makes the analysis end
  with \<^verbatim>\<open>RangeError\<close>, which is not the error about the index.
\<close>

theorem analyzeProfile_range_error_counterexample:
  "analyzeProfile 10000 (exProfile [exSample (replicate 10000 [''A'']) (Number 1)])
     (exOptions None) = Inl RangeError
   \<and> indexInRange (exProfile [exSample (replicate 10000 [''A'']) (Number 1)])
       (resolvedIndex (exOptions None))"
proof -
  let ?p = "exProfile [exSample (replicate 10000 [''A'']) (Number 1)]"
  have i: "resolvedIndex (exOptions None) = 0"
    by (simp add: resolvedIndex_def exOptions_def)
  have idx: "indexInRange ?p (resolvedIndex (exOptions None))"
    by (simp add: i indexInRange_def isIndex_def exProfile_def)
  have t: "toNum (columnTotal ?p (resolvedIndex (exOptions None))) \<noteq> 0"
    by (simp add: i columnTotal_def exProfile_def exSample_def sampleValue_def isIndex_def
        fl_one)
  have "(10000::nat) \<le> deepestStack ?p (resolvedIndex (exOptions None))"
    unfolding i deepestStack_example by simp
  from analyzeProfile_deep [OF idx t this] idx show ?thesis by simp
qed

text \<open>
  Claim C5, amended. When the index is valid and the total that the code
  accumulates for the selected column is zero, \<open>analyzeProfile\<close> returns a result,
  not an error, whatever the room on the call stack: total \<open>0\<close>, no function
  statistics, the empty root node, no hotspots and no critical paths. No
  percentage is computed on this path. The accumulated total is zero for a
  profile without samples and for a column of zeros; for a column of integers
  whose absolute values add up to at most \<open>2 ^ 53\<close> it is the exact sum, so there it
  is zero exactly when the column sums to zero.
\<close>

theorem degenerate_zero_total:
  "(indexInRange profile (resolvedIndex options)
      \<and> toNum (columnTotal profile (resolvedIndex options)) = 0
    \<longrightarrow> analyzeProfile stackDepth profile options =
         Inr \<lparr>res_sampleType = prof_sampleTypes profile ! nat \<lfloor>resolvedIndex options\<rfloor>,
              res_totalValue = Number 0,
              res_totalSamples = length (prof_samples profile),
              res_functionStats = [],
              res_callTree = CallTreeNode ''(root)'' ''(root)'' [] 0 (Number 0) (Number 0) 0 0 [],
              res_hotspots = [], res_criticalPaths = [],
              res_durationNanos = prof_durationNanos profile,
              res_period = prof_period profile,
              res_periodType = prof_periodType profile\<rparr>)
   \<and> (prof_samples profile = [] \<longrightarrow> columnTotal profile i = Number 0)
   \<and> ((\<forall>v\<in>set (column profile i). toNum v = 0) \<longrightarrow> columnTotal profile i = Number 0)
   \<and> (exactColumn (column profile i)
        \<longrightarrow> columnTotal profile i = Number (sum_list (map toNum (column profile i))))"
proof -
  have "columnTotal profile i = Number 0" if "prof_samples profile = []"
    using that by (simp add: columnTotal_def)
  moreover have "columnTotal profile i = Number 0" if "\<forall>v\<in>set (column profile i). toNum v = 0"
    using foldl_addNumeric_zeros [OF that] by (simp add: columnTotal_foldl)
  moreover have "columnTotal profile i = Number (sum_list (map toNum (column profile i)))"
    if "exactColumn (column profile i)"
    using foldl_addNumeric_exactColumn [OF that] by (simp add: columnTotal_foldl)
  ultimately show ?thesis
    using analyzeProfile_zero [of profile options stackDepth]
    by (simp add: createEmptyNode_def)
qed

theorem degenerate_zero_total_witness:
  "indexInRange (exProfile [exSample [[''A'']] (Number 0)]) (resolvedIndex (exOptions None))
   \<and> toNum (columnTotal (exProfile [exSample [[''A'']] (Number 0)]) (resolvedIndex (exOptions None))) = 0
   \<and> res_totalValue (projr (analyzeProfile 0 (exProfile [exSample [[''A'']] (Number 0)]) (exOptions None)))
       = Number 0
   \<and> res_functionStats (projr (analyzeProfile 0 (exProfile [exSample [[''A'']] (Number 0)]) (exOptions None))) = []
   \<and> res_callTree (projr (analyzeProfile 0 (exProfile [exSample [[''A'']] (Number 0)]) (exOptions None)))
       = CallTreeNode ''(root)'' ''(root)'' [] 0 (Number 0) (Number 0) 0 0 []
   \<and> res_hotspots (projr (analyzeProfile 0 (exProfile [exSample [[''A'']] (Number 0)]) (exOptions None))) = []
   \<and> res_criticalPaths (projr (analyzeProfile 0 (exProfile [exSample [[''A'']] (Number 0)]) (exOptions None))) = []"
proof -
  let ?p = "exProfile [exSample [[''A'']] (Number 0)]"
  have idx: "indexInRange ?p (resolvedIndex (exOptions None))"
    by code_simp
  have zero: "toNum (columnTotal ?p (resolvedIndex (exOptions None))) = 0"
    by code_simp
  from degenerate_zero_total [of ?p "exOptions None" 0, THEN conjunct1] idx zero
  show ?thesis by simp
qed

text \<open>
  The claim as stated fails when the additions round: the column
  \<open>2 ^ 53, 1, 1, - (2 ^ 53 + 2)\<close> sums to zero, but the total that the code
  accumulates is \<open>-2\<close> (each \<open>1\<close> is lost in the addition to \<open>2 ^ 53\<close>), and the result
  is the full analysis with this total.
\<close>

theorem degenerate_zero_total_counterexample:
  "sum_list (map toNum (column
      (exProfile [exSample [[''A'']] (Number (2 ^ 53)), exSample [[''A'']] (Number 1),
                  exSample [[''A'']] (Number 1), exSample [[''A'']] (Number (- (2 ^ 53 + 2)))])
      0)) = 0
   \<and> res_totalValue (projr (analyzeProfile 10
        (exProfile [exSample [[''A'']] (Number (2 ^ 53)), exSample [[''A'']] (Number 1),
                    exSample [[''A'']] (Number 1), exSample [[''A'']] (Number (- (2 ^ 53 + 2)))])
        (exOptions None))) = Number (- 2)
   \<and> analyzeProfile 10
        (exProfile [exSample [[''A'']] (Number (2 ^ 53)), exSample [[''A'']] (Number 1),
                    exSample [[''A'']] (Number 1), exSample [[''A'']] (Number (- (2 ^ 53 + 2)))])
        (exOptions None)
       = Inr (projr (analyzeProfile 10
        (exProfile [exSample [[''A'']] (Number (2 ^ 53)), exSample [[''A'']] (Number 1),
                    exSample [[''A'']] (Number 1), exSample [[''A'']] (Number (- (2 ^ 53 + 2)))])
        (exOptions None)))
   \<and> map fst (res_functionStats (projr (analyzeProfile 10
        (exProfile [exSample [[''A'']] (Number (2 ^ 53)), exSample [[''A'']] (Number 1),
                    exSample [[''A'']] (Number 1), exSample [[''A'']] (Number (- (2 ^ 53 + 2)))])
        (exOptions None)))) = [''A@app.js:7'']"
proof -
  let ?p = "exProfile [exSample [[''A'']] (Number (2 ^ 53)), exSample [[''A'']] (Number 1),
                  exSample [[''A'']] (Number 1), exSample [[''A'']] (Number (- (2 ^ 53 + 2)))]"
  have i: "resolvedIndex (exOptions None) = 0"
    by (simp add: resolvedIndex_def exOptions_def)
  have s: "sum_list (map toNum (column ?p 0)) = 0"
    by code_simp
  have idx: "indexInRange ?p 0"
    by code_simp
  have t: "columnTotal ?p 0 = Number (- 2)"
    by code_simp
  have d: "deepestStack ?p 0 < 10"
    by code_simp
  have k: "map fst (aggregateFunctionStats ?p 0 (Number (- 2))) = [''A@app.js:7'']"
    by code_simp
  from analyzeProfile_nonzero [of ?p "exOptions None" 10] idx t d s k show ?thesis
    by (simp add: i)
qed

section \<open>Critical paths of a result\<close>

text \<open>
  Claim C10. Every result of \<open>analyzeProfile\<close> holds at most five critical paths:
  the orchestrator calls the extractor with the constant \<open>5\<close>, the extractor cuts
  its sorted list to that length, and the options have no field for it.
\<close>

theorem critical_paths_bounded:
  "analyzeProfile stackDepth profile options = Inr r \<Longrightarrow> length (res_criticalPaths r) \<le> 5"
proof -
  assume r: "analyzeProfile stackDepth profile options = Inr r"
  show ?thesis
  proof (cases rule: analyzeProfile_cases [where profile = profile and options = options and stackDepth = stackDepth])
    case invalid
    with r show ?thesis by (simp add: analyzeProfile_error)
  next
    case zero
    with r show ?thesis by (auto simp: analyzeProfile_zero)
  next
    case deep
    with r show ?thesis by (simp add: analyzeProfile_deep)
  next
    case nonzero
    let ?tree = "withPercentages (columnTotal profile (resolvedIndex options))
                   (mergedTree profile (resolvedIndex options)
                      (columnTotal profile (resolvedIndex options)))"
    have "treeHeight ?tree \<le> Suc stackDepth"
      using nonzero(3) by (simp add: treeHeight_withPercentages treeHeight_mergedTree)
    from extract_returns [OF this, of 5] obtain found where
      f: "extractCriticalPaths stackDepth ?tree 5 = Inr found" ..
    from length_extractCriticalPaths [OF f] f r nonzero show ?thesis
      by (auto simp: analyzeProfile_nonzero)
  qed
qed

theorem critical_paths_bounded_witness:
  "analyzeProfile 10 (exProfile [exSample [[''A'']] (Number 10)]) (exOptions None)
     = Inr (projr (analyzeProfile 10 (exProfile [exSample [[''A'']] (Number 10)]) (exOptions None)))
   \<and> length (res_criticalPaths
         (projr (analyzeProfile 10 (exProfile [exSample [[''A'']] (Number 10)]) (exOptions None)))) \<le> 5"
proof -
  let ?p = "exProfile [exSample [[''A'']] (Number 10)]"
  have idx: "indexInRange ?p (resolvedIndex (exOptions None))"
    by code_simp
  have nonzero: "toNum (columnTotal ?p (resolvedIndex (exOptions None))) \<noteq> 0"
    by code_simp
  have d: "deepestStack ?p (resolvedIndex (exOptions None)) < 10"
    by code_simp
  have ok: "analyzeProfile 10 ?p (exOptions None)
     = Inr (projr (analyzeProfile 10 ?p (exOptions None)))"
    using analyzeProfile_nonzero [OF idx nonzero d] by simp
  show ?thesis using critical_paths_bounded [OF ok] ok by simp
qed

section \<open>The root of the call tree\<close>

lemma percent_self: "toNum t \<noteq> 0 \<Longrightarrow> percent t t = 100"
  by (simp add: percent_def fl_one fl_hundred)

lemma percent_zero: "percent (Number 0) t = 0"
  by (simp add: percent_def fl_zero)

lemma insertStack_cumulativeValue:
  "ct_cumulativeValue (insertStack node frames v) = ct_cumulativeValue node"
  by (cases node; cases frames) (simp_all add: Let_def)

lemma addSampleToTree_cumulativeValue:
  "ct_cumulativeValue (foldl (addSampleToTree i) node samples) = ct_cumulativeValue node"
  by (induction samples arbitrary: node)
     (simp_all add: addSampleToTree_def Let_def insertStack_cumulativeValue)

lemma withPercentages_root:
  "ct_cumulativeValue (withPercentages t node) = ct_cumulativeValue node
   \<and> ct_cumulativePercent (withPercentages t node) = percent (ct_cumulativeValue node) t"
  by (cases node) simp

lemma mergedTree_root: "ct_cumulativeValue (mergedTree profile i t) = t"
  unfolding mergedTree_def by (simp add: addSampleToTree_cumulativeValue seededRoot_def)

text \<open>
  Claim C2, amended. The root of the returned call tree always carries the total as
  its cumulative value. Its cumulative percentage is \<open>100\<close> when the total is not
  zero (the root is seeded with the total, and its percentage is the total divided
  by itself); in the degenerate zero-total result the root is the empty node, with
  percentage \<open>0\<close>.
\<close>

theorem root_seeded_from_total:
  assumes "analyzeProfile stackDepth profile options = Inr r"
  shows "ct_cumulativeValue (res_callTree r) = res_totalValue r
         \<and> ct_cumulativePercent (res_callTree r)
             = (if toNum (res_totalValue r) = 0 then 0 else 100)"
proof (cases rule: analyzeProfile_cases
    [where profile = profile and options = options and stackDepth = stackDepth])
  case invalid
  with assms show ?thesis by (simp add: analyzeProfile_error)
next
  case zero
  with assms show ?thesis by (auto simp add: analyzeProfile_zero createEmptyNode_def)
next
  case deep
  with assms show ?thesis by (simp add: analyzeProfile_deep)
next
  case nonzero
  with assms show ?thesis
    by (auto simp add: analyzeProfile_nonzero withPercentages_root mergedTree_root percent_self)
qed

theorem root_seeded_from_total_witness:
  "analyzeProfile 10 (exProfile [exSample [[''A'']] (Number 10)]) (exOptions None)
     = Inr (projr (analyzeProfile 10 (exProfile [exSample [[''A'']] (Number 10)]) (exOptions None)))
   \<and> res_totalValue (projr (analyzeProfile 10 (exProfile [exSample [[''A'']] (Number 10)])
         (exOptions None))) = Number 10
   \<and> ct_cumulativeValue (res_callTree
         (projr (analyzeProfile 10 (exProfile [exSample [[''A'']] (Number 10)]) (exOptions None))))
       = Number 10
   \<and> ct_cumulativePercent (res_callTree
         (projr (analyzeProfile 10 (exProfile [exSample [[''A'']] (Number 10)]) (exOptions None))))
       = 100"
proof -
  let ?p = "exProfile [exSample [[''A'']] (Number 10)]"
  have idx: "indexInRange ?p (resolvedIndex (exOptions None))"
    by code_simp
  have ten: "columnTotal ?p (resolvedIndex (exOptions None)) = Number 10"
    by code_simp
  have d: "deepestStack ?p (resolvedIndex (exOptions None)) < 10"
    by code_simp
  have ok: "analyzeProfile 10 ?p (exOptions None) = Inr (projr (analyzeProfile 10 ?p (exOptions None)))"
    using analyzeProfile_nonzero [OF idx _ d] ten by simp
  have t: "res_totalValue (projr (analyzeProfile 10 ?p (exOptions None))) = Number 10"
    using analyzeProfile_nonzero [OF idx _ d] ten by simp
  show ?thesis using root_seeded_from_total [OF ok] ok t by simp
qed

text \<open>
  The claim as stated fails on a profile without samples: the result is the
  degenerate one, whose root has cumulative percentage \<open>0\<close>.
\<close>

theorem root_percent_zero_total_counterexample:
  "analyzeProfile 10 (exProfile []) (exOptions None)
     = Inr (projr (analyzeProfile 10 (exProfile []) (exOptions None)))
   \<and> res_totalValue (projr (analyzeProfile 10 (exProfile []) (exOptions None))) = Number 0
   \<and> ct_cumulativePercent (res_callTree (projr (analyzeProfile 10 (exProfile []) (exOptions None)))) = 0
   \<and> ct_cumulativePercent (res_callTree (projr (analyzeProfile 10 (exProfile []) (exOptions None))))
       \<noteq> 100"
proof -
  have idx: "indexInRange (exProfile []) (resolvedIndex (exOptions None))"
    by code_simp
  have zero: "toNum (columnTotal (exProfile []) (resolvedIndex (exOptions None))) = 0"
    by code_simp
  show ?thesis
    using analyzeProfile_zero [OF idx zero, of 10] by (simp add: createEmptyNode_def)
qed

section \<open>Context sensitivity of the call tree\<close>

lemma fl_10: "fl 10 = 10"
  using fl_int [of 10] by simp

lemma fl_20: "fl 20 = 20"
  using fl_int [of 20] by simp

lemma fl_50: "fl 50 = 50"
  using fl_int [of 50] by simp

lemma fl_half: "fl (1 / 2) = 1 / 2"
  by code_simp

lemma percent_10_20: "toNum t = 20 \<Longrightarrow> percent (Number 10) t = 50"
  by (simp add: percent_def fl_half fl_50)

lemma percent_20_20: "toNum t = 20 \<Longrightarrow> percent (Number 20) t = 100"
  by (simp add: percent_def fl_one fl_hundred)

text \<open>
  Claim C4, amended. Stacks are stored leaf first, and the tree is built from the
  last stack entry down to the first. Two samples with the stacks \<open>[A, X]\<close> and
  \<open>[B, X]\<close> (index 0 the leaf, so \<open>X\<close> is the outermost caller of both), each of
  value \<open>10\<close>, give a root with the one child \<open>X\<close> of cumulative value \<open>20\<close>, whose
  children are \<open>A\<close> and \<open>B\<close> with cumulative value \<open>10\<close> each. The tree has three
  levels, which is the room that the recursion over it needs on the call stack.
\<close>

theorem tree_context_sensitivity:
  assumes "prof_samples profile = [s1, s2]"
    and "smp_stack s1 = [la, lx1]" and "smp_stack s2 = [lb, lx2]"
    and "loc_lines la = [a]" and "loc_lines lb = [b]"
    and "loc_lines lx1 = [x]" and "loc_lines lx2 = [x]"
    and "toNum (sampleValue s1 i) = 10" and "toNum (sampleValue s2 i) = 10"
    and "frameKey a \<noteq> frameKey b"
    and "toNum t = 20"
  shows "buildCallTree stackDepth profile i t =
     (if stackDepth < 3 then Inl RangeError
      else Inr (CallTreeNode ''(root)'' ''(root)'' [] 0 (Number 0) t 0 100
        [(frameKey x, frameNode x (Number 0) (Number 20) 0 100
            [(frameKey a, frameNode a (Number 10) (Number 10) 50 50 []),
             (frameKey b, frameNode b (Number 10) (Number 10) 50 50 [])])]))"
proof -
  have add0: "addNumeric (Number 0) (sampleValue s1 i) = Number 10"
    "addNumeric (Number 0) (sampleValue s2 i) = Number 10"
    "addNumeric (Number 10) (sampleValue s2 i) = Number 20"
    using assms(8,9) by (simp_all add: addNumeric_Number fl_10 fl_20)
  have deep: "deepestStack profile i = 2"
    using assms by (simp add: deepestStack_def framesRootToLeaf_def)
  have tree: "withPercentages t (mergedTree profile i t) =
      CallTreeNode ''(root)'' ''(root)'' [] 0 (Number 0) t 0 100
        [(frameKey x, frameNode x (Number 0) (Number 20) 0 100
            [(frameKey a, frameNode a (Number 10) (Number 10) 50 50 []),
             (frameKey b, frameNode b (Number 10) (Number 10) 50 50 [])])]"
    using assms
    unfolding mergedTree_def seededRoot_def addSampleToTree_def framesRootToLeaf_def
      frameNode_def frameKey_def
    by (simp add: Let_def add0 addNumeric_Number fl_10 fl_20 percent_zero percent_10_20
        percent_20_20 percent_self)
  show ?thesis
    unfolding buildCallTree_depth deep tree by auto
qed

theorem tree_context_sensitivity_witness:
  "buildCallTree 3
     (exProfile [exSample [[''A''], [''X'']] (Number 10), exSample [[''B''], [''X'']] (Number 10)])
     0 (Number 20) =
   Inr (CallTreeNode ''(root)'' ''(root)'' [] 0 (Number 0) (Number 20) 0 100
       [(''X@app.js:7'', CallTreeNode ''X@app.js:7'' ''X'' ''app.js'' 7 (Number 0) (Number 20) 0 100
           [(''A@app.js:7'', CallTreeNode ''A@app.js:7'' ''A'' ''app.js'' 7
               (Number 10) (Number 10) 50 50 []),
            (''B@app.js:7'', CallTreeNode ''B@app.js:7'' ''B'' ''app.js'' 7
               (Number 10) (Number 10) 50 50 [])])])"
proof -
  let ?s1 = "exSample [[''A''], [''X'']] (Number 10)"
    and ?s2 = "exSample [[''B''], [''X'']] (Number 10)"
  have k: "frameKey (exFrame ''A'') = ''A@app.js:7''" "frameKey (exFrame ''B'') = ''B@app.js:7''"
    "frameKey (exFrame ''X'') = ''X@app.js:7''"
    by code_simp+
  have h: "prof_samples (exProfile [?s1, ?s2]) = [?s1, ?s2]"
    "smp_stack ?s1 = [exLocation [''A''], exLocation [''X'']]"
    "smp_stack ?s2 = [exLocation [''B''], exLocation [''X'']]"
    "loc_lines (exLocation [''A'']) = [exFrame ''A'']"
    "loc_lines (exLocation [''B'']) = [exFrame ''B'']"
    "loc_lines (exLocation [''X'']) = [exFrame ''X'']"
    "toNum (sampleValue ?s1 0) = 10" "toNum (sampleValue ?s2 0) = 10"
    "frameKey (exFrame ''A'') \<noteq> frameKey (exFrame ''B'')"
    "toNum (Number 20) = 20"
    by (simp_all add: exProfile_def exSample_def exLocation_def sampleValue_def isIndex_def k)
  show ?thesis
    unfolding tree_context_sensitivity
      [OF h(1) h(2) h(3) h(4) h(5) h(6) h(6) h(7) h(8) h(9) h(10)] frameNode_def k
    by (simp add: exFrame_def exFunction_def)
qed

text \<open>
  With the stacks \<open>[X, A]\<close> and \<open>[X, B]\<close> of the claim as stated, \<open>X\<close> is the leaf of
  both samples: the root has the two children \<open>A\<close> and \<open>B\<close>, each with its own child
  \<open>X\<close> of cumulative value \<open>10\<close>, and no node has cumulative value \<open>20\<close> but the root.
\<close>

theorem tree_context_sensitivity_counterexample:
  "map (\<lambda>(k, c). (ct_name c, ct_cumulativeValue c,
          map (\<lambda>(k', c'). (ct_name c', ct_cumulativeValue c')) (ct_children c)))
     (ct_children (projr (buildCallTree 3
        (exProfile [exSample [[''X''], [''A'']] (Number 10),
                    exSample [[''X''], [''B'']] (Number 10)]) 0 (Number 20))))
   = [(''A'', Number 10, [(''X'', Number 10)]), (''B'', Number 10, [(''X'', Number 10)])]
   \<and> buildCallTree 3
        (exProfile [exSample [[''X''], [''A'']] (Number 10),
                    exSample [[''X''], [''B'']] (Number 10)]) 0 (Number 20)
     = Inr (projr (buildCallTree 3
        (exProfile [exSample [[''X''], [''A'']] (Number 10),
                    exSample [[''X''], [''B'']] (Number 10)]) 0 (Number 20)))"
  by code_simp

section \<open>The aggregator, sample by sample\<close>

lemma processLine_row:
  fixes sample :: Sample and v :: Numeric and i :: nat and seen :: "string set" and l :: LineInfo
    and stats :: "(string \<times> FunctionStats) list"
  assumes "keysOk stats"
  defines "res \<equiv> processLine sample v i (stats, seen) l"
  defines "row \<equiv> the (map_of (fst res) (frameKey l))"
  shows "res = (AList.update (frameKey l) row stats, insert (frameKey l) seen)
          \<and> fs_key row = frameKey l
          \<and> fs_cumulativeValue row
              = (if frameKey l \<in> seen then cumAt stats (frameKey l)
                 else addNumeric (cumAt stats (frameKey l)) v)
          \<and> fs_sampleCount row = countAt stats (frameKey l) + (if frameKey l \<in> seen then 0 else 1)"
proof (cases "map_of stats (frameKey l)")
  case None
  then show ?thesis
    unfolding row_def res_def processLine_def getOrCreateStats_def frameKey_def
      cumAt_def countAt_def
    by (simp add: Let_def insert_absorb update_conv')
next
  case (Some r)
  with assms have "fs_key r = frameKey l" by (simp add: keysOk_def)
  with Some show ?thesis
    unfolding row_def res_def processLine_def getOrCreateStats_def frameKey_def
      cumAt_def countAt_def
    by (simp add: Let_def insert_absorb update_conv')
qed

lemma processLine_update:
  assumes "keysOk stats"
  shows "\<exists>row. processLine sample v i (stats, seen) l
            = (AList.update (frameKey l) row stats, insert (frameKey l) seen)
          \<and> fs_key row = frameKey l
          \<and> fs_cumulativeValue row
              = (if frameKey l \<in> seen then cumAt stats (frameKey l)
                 else addNumeric (cumAt stats (frameKey l)) v)
          \<and> fs_sampleCount row = countAt stats (frameKey l) + (if frameKey l \<in> seen then 0 else 1)"
  using processLine_row [OF assms] by blast

lemma at_update:
  "cumAt (AList.update k row stats) k' = (if k' = k then fs_cumulativeValue row else cumAt stats k')"
  "countAt (AList.update k row stats) k' = (if k' = k then fs_sampleCount row else countAt stats k')"
  by (simp_all add: cumAt_def countAt_def update_conv')

lemma keysOk_update: "keysOk stats \<Longrightarrow> fs_key row = k \<Longrightarrow> keysOk (AList.update k row stats)"
  by (simp add: keysOk_def update_conv')

lemma credited_refl: "keysOk stats \<Longrightarrow> credited v {} stats seen (stats, seen)"
  by (simp add: credited_def)

lemma credited_trans:
  assumes "credited v K1 stats seen res1"
    and "credited v K2 (fst res1) (snd res1) res2"
  shows "credited v (K1 \<union> K2) stats seen res2"
  using assms unfolding credited_def
  by auto

lemma credited_line:
  assumes "keysOk stats"
  shows "credited v {frameKey l} stats seen (processLine sample v i (stats, seen) l)"
proof -
  from processLine_update [OF assms, of sample v i seen l]
  obtain row where r: "processLine sample v i (stats, seen) l
            = (AList.update (frameKey l) row stats, insert (frameKey l) seen)"
    "fs_key row = frameKey l"
    "fs_cumulativeValue row
       = (if frameKey l \<in> seen then cumAt stats (frameKey l)
          else addNumeric (cumAt stats (frameKey l)) v)"
    "fs_sampleCount row = countAt stats (frameKey l) + (if frameKey l \<in> seen then 0 else 1)"
    by blast
  show ?thesis
    unfolding credited_def r(1)
    using assms r(2-4)
    by (auto simp: at_update keysOk_update dom_update)
qed

lemma credited_lines:
  assumes "keysOk stats"
  shows "credited v (frameKey ` set ls) stats seen
           (foldl (processLine sample v i) (stats, seen) ls)"
  using assms
proof (induction ls arbitrary: stats seen)
  case Nil
  then show ?case by (simp add: credited_refl)
next
  case (Cons l ls)
  let ?r1 = "processLine sample v i (stats, seen) l"
  have c1: "credited v {frameKey l} stats seen ?r1"
    by (rule credited_line [OF Cons.prems])
  then have ok1: "keysOk (fst ?r1)" by (simp add: credited_def)
  have c2: "credited v (frameKey ` set ls) (fst ?r1) (snd ?r1)
              (foldl (processLine sample v i) (fst ?r1, snd ?r1) ls)"
    by (rule Cons.IH [OF ok1])
  have "credited v ({frameKey l} \<union> frameKey ` set ls) stats seen
          (foldl (processLine sample v i) (fst ?r1, snd ?r1) ls)"
    by (rule credited_trans [OF c1 c2])
  moreover have "{frameKey l} \<union> frameKey ` set ls = frameKey ` set (l # ls)" by auto
  ultimately show ?case by simp
qed

lemma credited_locations:
  assumes "keysOk stats"
  shows "credited v (\<Union>i\<in>set is. locKeys sample i) stats seen
           (foldl (processLocation sample v) (stats, seen) is)"
  using assms
proof (induction "is" arbitrary: stats seen)
  case Nil
  then show ?case by (simp add: credited_refl)
next
  case (Cons i "is")
  let ?r1 = "processLocation sample v (stats, seen) i"
  have c1: "credited v (locKeys sample i) stats seen ?r1"
    unfolding processLocation_def locKeys_def
    by (rule credited_lines [OF Cons.prems])
  then have ok1: "keysOk (fst ?r1)" by (simp add: credited_def)
  have c2: "credited v (\<Union>j\<in>set is. locKeys sample j)
              (fst ?r1) (snd ?r1) (foldl (processLocation sample v) (fst ?r1, snd ?r1) is)"
    by (rule Cons.IH [OF ok1])
  from credited_trans [OF c1 c2] show ?case by simp
qed

lemma stack_positions:
  "(\<Union>loc\<in>set locs. g loc) = (\<Union>j\<in>{0 ..< length locs}. g (locs ! j))"
proof -
  have "(!) locs ` {0 ..< length locs} = set locs"
    using nth_image [of "length locs" locs] by simp
  then have "(\<Union>loc\<in>set locs. g loc) = (\<Union>loc\<in>(!) locs ` {0 ..< length locs}. g loc)"
    by simp
  then show ?thesis by (simp only: image_image UN_simps)
qed

lemma union_locKeys:
  "(\<Union>i\<in>set [0 ..< length (smp_stack sample)]. locKeys sample i) = sampleKeys sample"
  unfolding locKeys_def sampleKeys_def
  using stack_positions [where locs = "smp_stack sample"
      and g = "\<lambda>loc. frameKey ` set (loc_lines loc)", symmetric]
  by (simp add: image_UN)

lemma processSample_effect:
  assumes "keysOk stats"
  shows "keysOk (processSample idx stats sample)
    \<and> fst ` set (processSample idx stats sample)
         = fst ` set stats
           \<union> (if toNum (sampleValue sample idx) = 0 then {} else sampleKeys sample)
    \<and> (\<forall>k. cumAt (processSample idx stats sample) k
           = (if toNum (sampleValue sample idx) \<noteq> 0 \<and> k \<in> sampleKeys sample
              then addNumeric (cumAt stats k) (sampleValue sample idx) else cumAt stats k))
    \<and> (\<forall>k. countAt (processSample idx stats sample) k
           = countAt stats k
             + (if toNum (sampleValue sample idx) \<noteq> 0 \<and> k \<in> sampleKeys sample then 1 else 0))"
proof (cases "toNum (sampleValue sample idx) = 0")
  case True
  with assms show ?thesis by (simp add: processSample_def)
next
  case False
  have "credited (sampleValue sample idx) (sampleKeys sample) stats {}
          (foldl (processLocation sample (sampleValue sample idx)) (stats, {})
             [0 ..< length (smp_stack sample)])"
    using credited_locations [OF assms, where v = "sampleValue sample idx"
        and ?is = "[0 ..< length (smp_stack sample)]" and sample = sample and seen = "{}"]
    by (simp only: union_locKeys)
  with False show ?thesis
    by (simp add: processSample_def credited_def Let_def)
qed

lemma samples_effect:
  assumes "keysOk stats"
  shows "keysOk (foldl (processSample idx) stats samples)
    \<and> fst ` set (foldl (processSample idx) stats samples)
         = fst ` set stats
           \<union> (\<Union>sample\<in>set samples.
                if toNum (sampleValue sample idx) = 0 then {} else sampleKeys sample)
    \<and> (\<forall>k. cumAt (foldl (processSample idx) stats samples) k
           = foldl addNumeric (cumAt stats k)
               (map (\<lambda>sample. sampleValue sample idx)
                 (filter (\<lambda>sample. toNum (sampleValue sample idx) \<noteq> 0 \<and> k \<in> sampleKeys sample)
                    samples)))
    \<and> (\<forall>k. countAt (foldl (processSample idx) stats samples) k
           = countAt stats k
             + int (length
                 (filter (\<lambda>sample. toNum (sampleValue sample idx) \<noteq> 0 \<and> k \<in> sampleKeys sample)
                    samples)))"
  using assms
proof (induction samples arbitrary: stats)
  case Nil
  then show ?case by simp
next
  case (Cons sample samples)
  note e = processSample_effect [OF Cons.prems, of idx sample]
  from e have ok: "keysOk (processSample idx stats sample)" by simp
  note ih = Cons.IH [OF ok]
  show ?case
    using e ih by (auto simp: Un_assoc)
qed

lemma keysOk_empty: "keysOk []"
  by (simp add: keysOk_def)

lemma map_of_aggregate:
  "map_of (aggregateFunctionStats profile i t) k
     = map_option (setPercentages t) (map_of (foldl (processSample i) [] (prof_samples profile)) k)"
  unfolding aggregateFunctionStats_def by (simp add: map_of_map)

lemma aggregate_row:
  "(case map_of (aggregateFunctionStats profile i t) k of
      None \<Rightarrow> contributing profile i k = []
    | Some row \<Rightarrow>
        contributing profile i k \<noteq> []
        \<and> fs_cumulativeValue row
            = foldl addNumeric (Number 0)
                (map (\<lambda>sample. sampleValue sample i) (contributing profile i k))
        \<and> fs_sampleCount row = int (length (contributing profile i k)))"
proof -
  let ?raw = "foldl (processSample i) [] (prof_samples profile)"
  note e = samples_effect [OF keysOk_empty, of i "prof_samples profile"]
  have dom: "(k \<in> fst ` set ?raw) = (contributing profile i k \<noteq> [])"
    using e by (auto simp: contributing_def filter_empty_conv split: if_splits)
  have cum: "cumAt ?raw k = foldl addNumeric (Number 0)
      (map (\<lambda>sample. sampleValue sample i) (contributing profile i k))"
    using e by (simp add: contributing_def cumAt_def)
  have cnt: "countAt ?raw k = int (length (contributing profile i k))"
    using e by (simp add: contributing_def countAt_def)
  show ?thesis
  proof (cases "map_of ?raw k")
    case None
    then have "k \<notin> fst ` set ?raw" by (simp add: map_of_eq_None_iff)
    with dom None show ?thesis by (simp add: map_of_aggregate)
  next
    case (Some row)
    then have "k \<in> fst ` set ?raw" by (metis map_of_eq_None_iff option.distinct(1))
    with dom Some cum cnt show ?thesis
      by (simp add: map_of_aggregate cumAt_def countAt_def setPercentages_def)
  qed
qed

section \<open>Recursion dedup\<close>

lemma fl_fifty: "fl 50 = 50"
  using fl_int [of 50] by simp

text \<open>
  Claim C3. For every profile and key, the row of the key exists exactly when some
  sample of non-zero value has the key in its stack, and then its cumulative value
  is what the additions of the values of these samples give, one addition for each
  sample, and its sample count is their number: each sample counts once for a key,
  however many stack positions or inlined frames carry it. Where these values are
  integers whose absolute values add up to at most \<open>2 ^ 53\<close>, the cumulative value
  is their exact sum. In particular a single sample of value \<open>50\<close> with the stack
  \<open>[A, A, B]\<close> gives the row of \<open>A\<close> the cumulative value \<open>50\<close> and the sample count
  \<open>1\<close>.
\<close>

theorem recursion_dedup:
  "(case map_of (aggregateFunctionStats profile i t) k of
      None \<Rightarrow> contributing profile i k = []
    | Some row \<Rightarrow>
        contributing profile i k \<noteq> []
        \<and> fs_cumulativeValue row
            = foldl addNumeric (Number 0)
                (map (\<lambda>sample. sampleValue sample i) (contributing profile i k))
        \<and> (exactColumn (map (\<lambda>sample. sampleValue sample i) (contributing profile i k))
             \<longrightarrow> fs_cumulativeValue row
                  = Number (sum_list (map (\<lambda>sample. toNum (sampleValue sample i))
                                        (contributing profile i k))))
        \<and> fs_sampleCount row = int (length (contributing profile i k)))
   \<and> (prof_samples profile' = [sample] \<and> smp_stack sample = [la1, la2, lb]
        \<and> loc_lines la1 = [a] \<and> loc_lines la2 = [a] \<and> loc_lines lb = [b]
        \<and> toNum (sampleValue sample i') = 50
      \<longrightarrow> (\<exists>row. map_of (aggregateFunctionStats profile' i' t') (frameKey a) = Some row
                \<and> fs_cumulativeValue row = Number 50 \<and> fs_sampleCount row = 1))"
proof (intro conjI impI)
  have "foldl addNumeric (Number 0) (map (\<lambda>sample. sampleValue sample i) (contributing profile i k))
      = Number (sum_list (map (\<lambda>sample. toNum (sampleValue sample i)) (contributing profile i k)))"
    if "exactColumn (map (\<lambda>sample. sampleValue sample i) (contributing profile i k))"
    using foldl_addNumeric_exactColumn [OF that] by (simp add: comp_def)
  with aggregate_row [where profile = profile and i = i and t = t and k = k]
  show "case map_of (aggregateFunctionStats profile i t) k of
      None \<Rightarrow> contributing profile i k = []
    | Some row \<Rightarrow>
        contributing profile i k \<noteq> []
        \<and> fs_cumulativeValue row
            = foldl addNumeric (Number 0)
                (map (\<lambda>sample. sampleValue sample i) (contributing profile i k))
        \<and> (exactColumn (map (\<lambda>sample. sampleValue sample i) (contributing profile i k))
             \<longrightarrow> fs_cumulativeValue row
                  = Number (sum_list (map (\<lambda>sample. toNum (sampleValue sample i))
                                        (contributing profile i k))))
        \<and> fs_sampleCount row = int (length (contributing profile i k))"
    by (simp split: option.splits)
next
  assume h: "prof_samples profile' = [sample] \<and> smp_stack sample = [la1, la2, lb]
        \<and> loc_lines la1 = [a] \<and> loc_lines la2 = [a] \<and> loc_lines lb = [b]
        \<and> toNum (sampleValue sample i') = 50"
  then have c: "contributing profile' i' (frameKey a) = [sample]"
    by (simp add: contributing_def sampleKeys_def)
  from h have v: "addNumeric (Number 0) (sampleValue sample i') = Number 50"
    by (simp add: addNumeric_Number fl_fifty)
  from aggregate_row [where profile = profile' and i = i' and t = t' and k = "frameKey a"] c v
  show "\<exists>row. map_of (aggregateFunctionStats profile' i' t') (frameKey a) = Some row
                \<and> fs_cumulativeValue row = Number 50 \<and> fs_sampleCount row = 1"
    by (cases "map_of (aggregateFunctionStats profile' i' t') (frameKey a)") simp_all
qed

theorem recursion_dedup_witness:
  "map_of (aggregateFunctionStats
             (exProfile [exSample [[''A''], [''A''], [''B'']] (Number 50)]) 0 (Number 50))
      (frameKey (exFrame ''A'')) \<noteq> None
   \<and> fs_cumulativeValue (the (map_of
        (aggregateFunctionStats
           (exProfile [exSample [[''A''], [''A''], [''B'']] (Number 50)]) 0 (Number 50))
        (frameKey (exFrame ''A'')))) = Number 50
   \<and> fs_sampleCount (the (map_of
        (aggregateFunctionStats
           (exProfile [exSample [[''A''], [''A''], [''B'']] (Number 50)]) 0 (Number 50))
        (frameKey (exFrame ''A'')))) = 1"
proof -
  let ?s = "exSample [[''A''], [''A''], [''B'']] (Number 50)"
  have h: "prof_samples (exProfile [?s]) = [?s]
      \<and> smp_stack ?s = [exLocation [''A''], exLocation [''A''], exLocation [''B'']]
      \<and> loc_lines (exLocation [''A'']) = [exFrame ''A'']
      \<and> loc_lines (exLocation [''A'']) = [exFrame ''A'']
      \<and> loc_lines (exLocation [''B'']) = [exFrame ''B'']
      \<and> toNum (sampleValue ?s 0) = 50"
    by (simp add: exProfile_def exSample_def exLocation_def sampleValue_def isIndex_def)
  have "\<exists>row. map_of (aggregateFunctionStats (exProfile [?s]) 0 (Number 50))
                 (frameKey (exFrame ''A''))
            = Some row \<and> fs_cumulativeValue row = Number 50 \<and> fs_sampleCount row = 1"
    by (rule mp [OF recursion_dedup [where profile' = "exProfile [?s]"
          and sample = ?s and i' = 0 and t' = "Number 50" and a = "exFrame ''A''"
          and b = "exFrame ''B''"
          and ?la1.0 = "exLocation [''A'']" and ?la2.0 = "exLocation [''A'']"
          and lb = "exLocation [''B'']", THEN conjunct2] h])
  then obtain row where
    "map_of (aggregateFunctionStats (exProfile [?s]) 0 (Number 50)) (frameKey (exFrame ''A''))
       = Some row"
    "fs_cumulativeValue row = Number 50" "fs_sampleCount row = 1"
    by blast
  then show ?thesis by simp
qed

section \<open>Self values of inlined leaf frames\<close>

text \<open>
  Claim C1. The aggregator adds the value of a sample to the self value of every
  frame of the leaf location: the test \<^verbatim>\<open>i === 0\<close> sits inside the loop over the
  lines of the location. For one sample of value \<open>10\<close> whose only location has the
  two frames \<open>f\<close> and \<open>g\<close>, the total is \<open>10\<close>, and the rows of \<open>f\<close> and \<open>g\<close> both get
  the self value \<open>10\<close> and the self percentage \<open>100\<close>: the self values add up to
  \<open>20\<close>, twice the total. The call tree of the same result credits the sample to
  one node only: below the root, \<open>f\<close> has the self value \<open>0\<close> and its child \<open>g\<close> the
  self value \<open>10\<close>; and the cumulative value of the root is the total.
\<close>

theorem self_value_inlined_leaf:
  "analyzeProfile 10 (exProfile [exSample [[''f'', ''g'']] (Number 10)]) (exOptions None)
     = Inr (projr (analyzeProfile 10 (exProfile [exSample [[''f'', ''g'']] (Number 10)])
                     (exOptions None)))
   \<and> res_totalValue (projr (analyzeProfile 10
         (exProfile [exSample [[''f'', ''g'']] (Number 10)]) (exOptions None))) = Number 10
   \<and> map (\<lambda>(k, row). (fs_name row, fs_selfValue row, fs_selfPercent row))
       (res_functionStats (projr (analyzeProfile 10
          (exProfile [exSample [[''f'', ''g'']] (Number 10)]) (exOptions None))))
     = [(''f'', Number 10, 100), (''g'', Number 10, 100)]
   \<and> map (\<lambda>(k, c). (ct_name c, ct_selfValue c,
            map (\<lambda>(k', c'). (ct_name c', ct_selfValue c')) (ct_children c)))
       (ct_children (res_callTree (projr (analyzeProfile 10
          (exProfile [exSample [[''f'', ''g'']] (Number 10)]) (exOptions None)))))
     = [(''f'', Number 0, [(''g'', Number 10)])]
   \<and> ct_cumulativeValue (res_callTree (projr (analyzeProfile 10
          (exProfile [exSample [[''f'', ''g'']] (Number 10)]) (exOptions None)))) = Number 10"
proof -
  let ?p = "exProfile [exSample [[''f'', ''g'']] (Number 10)]"
  have i: "resolvedIndex (exOptions None) = 0"
    by (simp add: resolvedIndex_def exOptions_def)
  have idx: "indexInRange ?p 0"
    by code_simp
  have t: "columnTotal ?p 0 = Number 10"
    by code_simp
  have d: "deepestStack ?p 0 < 10"
    by code_simp
  have rows: "map (\<lambda>(k, row). (fs_name row, fs_selfValue row, fs_selfPercent row))
       (aggregateFunctionStats ?p 0 (Number 10)) = [(''f'', Number 10, 100), (''g'', Number 10, 100)]"
    by code_simp
  have tree: "map (\<lambda>(k, c). (ct_name c, ct_selfValue c,
            map (\<lambda>(k', c'). (ct_name c', ct_selfValue c')) (ct_children c)))
       (ct_children (withPercentages (Number 10) (mergedTree ?p 0 (Number 10))))
     = [(''f'', Number 0, [(''g'', Number 10)])]"
    by code_simp
  from analyzeProfile_nonzero [of ?p "exOptions None" 10] idx t d rows tree show ?thesis
    by (simp add: i withPercentages_root mergedTree_root)
qed

section \<open>The string of an integer\<close>

lemma decLength_zero: "decLength 0 = 0"
  by (subst decLength.simps) simp

lemma decLength_step: "0 < m \<Longrightarrow> decLength m = 1 + decLength (m div 10)"
  by (subst decLength.simps) simp

lemma decLength_bounds:
  "0 < m \<Longrightarrow> 1 \<le> decLength m \<and> 10 ^ nat (decLength m - 1) \<le> m \<and> m < 10 ^ nat (decLength m)"
proof (induction m rule: decLength.induct)
  case (1 n)
  show ?case
  proof (cases "n < 10")
    case True
    with "1.prems" have "n div 10 = 0" by simp
    with "1.prems" True show ?thesis
      by (simp add: decLength_step decLength_zero)
  next
    case False
    then have pos: "0 < n div 10" by simp
    from "1.IH" "1.prems" pos have ih: "1 \<le> decLength (n div 10)"
      "10 ^ nat (decLength (n div 10) - 1) \<le> n div 10"
      "n div 10 < 10 ^ nat (decLength (n div 10))"
      by simp_all
    define L where "L = decLength (n div 10)"
    have len: "decLength n = L + 1"
      using "1.prems" by (simp add: decLength_step L_def)
    have e: "nat L = Suc (nat (L - 1))" using ih(1) by (simp add: L_def)
    have "(10::int) ^ nat L = 10 * 10 ^ nat (L - 1)" by (subst e) simp
    also have "\<dots> \<le> 10 * (n div 10)" using ih(2) by (simp add: L_def)
    also have "\<dots> \<le> n" by simp
    finally have lo: "10 ^ nat L \<le> n" .
    have "n < 10 * (n div 10 + 1)" by simp
    also have "\<dots> \<le> 10 * 10 ^ nat L" using ih(3) by (simp add: L_def)
    finally have hi: "n < 10 ^ Suc (nat L)" by simp
    have "nat (L + 1) = Suc (nat L)" using ih(1) by (simp add: L_def)
    with lo hi ih(1) show ?thesis by (simp add: len L_def)
  qed
qed

lemma decExp_int:
  assumes "0 < m"
  shows "decExp (of_int m) = decLength m"
proof -
  have one: "decLength 1 = 1"
    by (simp add: decLength_step decLength_zero)
  from decLength_bounds [OF assms] have b: "1 \<le> decLength m"
    "10 ^ nat (decLength m - 1) \<le> m" by simp_all
  then have "(of_int (10 ^ nat (decLength m - 1)) :: rat) \<le> of_int m"
    by (simp only: of_int_le_iff)
  then have "pow10 (decLength m - 1) \<le> of_int m"
    using b(1) by (simp add: pow10_def)
  then show ?thesis by (simp add: decExp_def Let_def one)
qed

lemma fl_int_pos: "0 \<le> n \<Longrightarrow> n \<le> 10 ^ 15 \<Longrightarrow> fl (of_int n) = of_int n"
  by (rule fl_int) simp

lemma digitsWith_int:
  assumes m: "0 < m" "m < 10 ^ 15" and k: "1 \<le> k" "k \<le> decLength m"
  shows "digitsWith (of_int m) (decLength m) k
           = (if 10 ^ nat (decLength m - k) dvd m
              then Some (decLength m, m div 10 ^ nat (decLength m - k)) else None)"
proof -
  define D where "D = decLength m"
  define w :: int where "w = 10 ^ nat (D - k)"
  define f where "f = m div w"
  from decLength_bounds [OF m(1)] have D: "1 \<le> D" "10 ^ nat (D - 1) \<le> m" "m < 10 ^ nat D"
    by (simp_all add: D_def)
  have wpos: "0 < w" by (simp add: w_def)
  have pw: "pow10 (D - k) = of_int w" using k by (simp add: pow10_def w_def D_def)
  have fl: "\<lfloor>of_int m / pow10 (D - k)\<rfloor> = f"
    unfolding pw f_def by (rule floor_divide_of_int_eq)
  have D15: "nat D \<le> 15"
  proof (rule ccontr)
    assume "\<not> nat D \<le> 15"
    then have "16 \<le> nat D" by simp
    then have "(10::int) ^ 16 \<le> 10 ^ nat D" by (intro power_increasing) simp_all
    moreover have "(10::int) ^ nat (D - 1) = 10 ^ (nat D - 1)"
      using D(1) by (simp add: nat_diff_distrib)
    moreover have "(10::int) ^ 15 \<le> 10 ^ (nat D - 1)"
      using \<open>16 \<le> nat D\<close> by (intro power_increasing) simp_all
    ultimately show False using D(2) m(2) by simp
  qed
  have top: "(10::int) ^ nat D \<le> 10 ^ 15"
    using D15 by (intro power_increasing) simp_all
  have dm: "m = f * w + m mod w" unfolding f_def by simp
  have md: "0 \<le> m mod w" "m mod w < w" using wpos by simp_all
  have fw_le: "f * w \<le> m" using dm md by linarith
  have fw_gt: "m < (f + 1) * w" using dm md by (simp add: algebra_simps)
  have f0: "0 \<le> f" unfolding f_def using m(1) wpos by (simp add: pos_imp_zdiv_nonneg_iff)
  have split: "(10::int) ^ nat D = 10 ^ nat k * w"
  proof -
    have "nat D = nat k + nat (D - k)" using k by (simp add: D_def)
    then show ?thesis by (simp add: w_def power_add)
  qed
  have lower: "roundsTo (of_int m) k (D, f) = (w dvd m)"
  proof -
    have "fl (of_int (f * w)) = of_int (f * w)"
      using fl_int_pos [of "f * w"] f0 wpos fw_le m(2) by simp
    then have e1: "fl (of_int f * pow10 (D - k)) = of_int (f * w)"
      unfolding pw by (simp only: of_int_mult)
    have "(f * w = m) = (w dvd m)"
      unfolding f_def using wpos by (metis dvd_div_mult_self dvd_triv_right)
    then have e2: "(of_int (f * w) = (of_int m :: rat)) = (w dvd m)"
      by (simp only: of_int_eq_iff)
    show ?thesis unfolding roundsTo_def by (simp only: prod.case e1 e2)
  qed
  have upper1: "\<not> roundsTo (of_int m) k (D, f + 1)" if "f + 1 < 10 ^ nat k"
  proof -
    have "(f + 1) * w \<le> 10 ^ nat k * w" using that wpos by simp
    then have "(f + 1) * w \<le> 10 ^ 15" using split top by simp
    moreover have "0 \<le> (f + 1) * w" using f0 wpos by simp
    ultimately have "fl (of_int ((f + 1) * w)) = of_int ((f + 1) * w)"
      by (rule fl_int_pos [rotated])
    then have e1: "fl (of_int (f + 1) * pow10 (D - k)) = of_int ((f + 1) * w)"
      unfolding pw by (simp only: of_int_mult)
    from fw_gt have "(f + 1) * w \<noteq> m" by simp
    then have e2: "of_int ((f + 1) * w) \<noteq> (of_int m :: rat)"
      by (simp only: of_int_eq_iff not_False_eq_True)
    show ?thesis unfolding roundsTo_def by (simp only: prod.case e1 e2 not_False_eq_True)
  qed
  have upper2: "\<not> roundsTo (of_int m) k (D + 1, 10 ^ nat (k - 1))"
  proof -
    have "nat (D + 1 - k) = Suc (nat (D - k))" using k by (simp add: D_def)
    then have "pow10 (D + 1 - k) = of_int (10 * w)"
      using k by (simp add: pow10_def w_def D_def)
    moreover have "(10::int) ^ nat (k - 1) * (10 * w) = 10 ^ nat D"
    proof -
      have "nat k = Suc (nat (k - 1))" using k(1) by simp
      then have "(10::int) ^ nat k = 10 * 10 ^ nat (k - 1)" by (metis power_Suc)
      then show ?thesis using split by simp
    qed
    ultimately have "of_int (10 ^ nat (k - 1)) * pow10 (D + 1 - k) = (of_int (10 ^ nat D) :: rat)"
      by (metis of_int_mult)
    moreover have "fl (of_int (10 ^ nat D)) = of_int (10 ^ nat D)"
      using fl_int_pos [of "10 ^ nat D"] top by simp
    ultimately have e1: "fl (of_int (10 ^ nat (k - 1)) * pow10 (D + 1 - k)) = of_int (10 ^ nat D)"
      by (simp only:)
    from D(3) have "10 ^ nat D \<noteq> m" by simp
    then have e2: "of_int (10 ^ nat D) \<noteq> (of_int m :: rat)"
      by (simp only: of_int_eq_iff not_False_eq_True)
    show ?thesis unfolding roundsTo_def by (simp only: prod.case e1 e2 not_False_eq_True)
  qed
  show ?thesis
    unfolding digitsWith_def D_def [symmetric] fl Let_def
    using lower upper1 upper2
    by (auto simp: w_def f_def)
qed
lemma decLength_le:
  assumes "0 < m" and "m < 10 ^ 15"
  shows "decLength m \<le> 15"
proof (rule ccontr)
  assume "\<not> decLength m \<le> 15"
  then have "15 \<le> nat (decLength m - 1)" by simp
  then have "(10::int) ^ 15 \<le> 10 ^ nat (decLength m - 1)"
    by (intro power_increasing) simp_all
  with decLength_bounds [OF assms(1)] assms(2) show False by simp
qed

lemma shortestDigits_int:
  assumes "0 < m" and "m < 10 ^ 15" and "1 \<le> k" and "k \<le> decLength m"
    and "nat (decLength m - k) < fuel"
  shows "\<exists>k' s. shortestDigits fuel (of_int m) (decLength m) k = (decLength m, k', s)
           \<and> k \<le> k' \<and> k' \<le> decLength m \<and> 0 < s \<and> s * 10 ^ nat (decLength m - k') = m"
  using assms(3-5)
proof (induction fuel arbitrary: k)
  case 0
  then show ?case by simp
next
  case (Suc fuel)
  define w :: int where "w = 10 ^ nat (decLength m - k)"
  have wpos: "0 < w" by (simp add: w_def)
  note dw = digitsWith_int [OF assms(1,2) Suc.prems(1,2), folded w_def]
  show ?case
  proof (cases "w dvd m")
    case True
    then have "m div w * w = m" by simp
    moreover from this assms(1) wpos have "0 < m div w"
      by (metis mult_zero_left less_le pos_imp_zdiv_nonneg_iff)
    ultimately show ?thesis
      using True Suc.prems dw by (simp add: w_def)
  next
    case False
    then have "w \<noteq> 1" by auto
    then have "decLength m - k \<noteq> 0" by (auto simp: w_def)
    with Suc.prems have k1: "1 \<le> k + 1" "k + 1 \<le> decLength m"
      "nat (decLength m - (k + 1)) < fuel"
      by simp_all
    from Suc.IH [OF k1] False dw show ?thesis by auto
  qed
qed

lemma digit_zero: "digit 0 = CHR ''0''"
  by code_simp

lemma showNat_times_10: "0 < n \<Longrightarrow> showNat (n * 10) = showNat n @ ''0''"
  by (subst showNat.simps) (simp add: digit_zero)

lemma showNat_shift: "0 < n \<Longrightarrow> showNat (n * 10 ^ j) = showNat n @ replicate j (CHR ''0'')"
proof (induction j)
  case 0
  then show ?case by simp
next
  case (Suc j)
  have "n * 10 ^ Suc j = (n * 10 ^ j) * 10" by simp
  moreover have "0 < n * 10 ^ j" using Suc.prems by simp
  ultimately have "showNat (n * 10 ^ Suc j) = showNat (n * 10 ^ j) @ ''0''"
    by (simp only: showNat_times_10)
  with Suc show ?case by (simp add: replicate_append_same)
qed

lemma positiveToString_int:
  assumes "0 < m" and "m < 10 ^ 15"
  shows "positiveToString (of_int m) = showNat m"
proof -
  from decLength_bounds [OF assms(1)] have one: "1 \<le> decLength m" by simp
  from decLength_le [OF assms] have le: "decLength m \<le> 15" .
  then have fuel: "nat (decLength m - 1) < 17" by simp
  from shortestDigits_int [OF assms _ _ fuel] one obtain k' s where
    r: "shortestDigits 17 (of_int m) (decLength m) 1 = (decLength m, k', s)"
    and k': "1 \<le> k'" "k' \<le> decLength m" and s: "0 < s" "s * 10 ^ nat (decLength m - k') = m"
    by auto
  from showNat_shift [OF s(1), of "nat (decLength m - k')"] s(2)
  have "showNat m = showNat s @ replicate (nat (decLength m - k')) (CHR ''0'')" by simp
  with r k' le show ?thesis
    by (simp add: positiveToString_def decExp_int [OF assms(1)] zeros_def)
qed

lemma numberToString_int:
  assumes "0 \<le> m" and "m < 10 ^ 15"
  shows "numberToString (of_int m) = showNat m"
proof (cases "m = 0")
  case True
  then show ?thesis
    by (subst showNat.simps) (simp add: numberToString_def digit_zero)
next
  case False
  with assms have "0 < m" by simp
  from positiveToString_int [OF this assms(2)] \<open>0 < m\<close> show ?thesis
    by (simp add: numberToString_def)
qed

section \<open>Anchors of critical paths\<close>



section \<open>Hotspots\<close>


section \<open>Unit formatting\<close>

lemma of_char_digit: "0 \<le> d \<Longrightarrow> d < 10 \<Longrightarrow> of_char (digit d) = 48 + d"
  by (simp add: digit_def)

lemma readNat_snoc: "readNat (s @ [c]) = 10 * readNat s + (of_char c - 48)"
  by (simp add: readNat_def)

lemma readNat_showNat: "0 \<le> n \<Longrightarrow> readNat (showNat n) = n"
proof (induction n rule: showNat.induct)
  case (1 n)
  show ?case
  proof (cases "n < 10")
    case True
    with "1.prems" show ?thesis
      by (subst showNat.simps) (simp add: readNat_def of_char_digit)
  next
    case False
    with "1.prems" "1.IH" have "readNat (showNat (n div 10)) = n div 10" by simp
    with False show ?thesis
      by (subst showNat.simps) (simp add: readNat_snoc of_char_digit)
  qed
qed

lemma toFixed2_decimals:
  assumes "0 \<le> x" and "x < 10 ^ 21"
  shows "\<exists>n. toFixed2 x = showNat (n div 100) @ ''.'' @ [digit (n mod 100 div 10), digit (n mod 10)]
             \<and> 0 \<le> n \<and> \<bar>of_int n / 100 - x\<bar> \<le> 1 / 200"
proof -
  define n where "n = \<lfloor>x * 100 + 1 / 2\<rfloor>"
  have "of_int n \<le> x * 100 + 1 / 2" and "x * 100 + 1 / 2 < of_int n + 1"
    unfolding n_def by linarith+
  then have close: "\<bar>of_int n / 100 - x\<bar> \<le> 1 / 200" by linarith
  have "0 \<le> n" unfolding n_def using assms(1) by simp
  moreover have "toFixed2 x
      = showNat (n div 100) @ ''.'' @ [digit (n mod 100 div 10), digit (n mod 10)]"
    using assms by (simp add: toFixed2_def Let_def n_def)
  ultimately show ?thesis using close by blast
qed

lemma formatValue_formatHuman: "formatValue v unit = formatHuman v unit"
  unfolding formatValue_def formatHuman_def unitKindOf_def Let_def by simp

lemma formatValue_small:
  assumes "0 \<le> m \<and> m < 1000 \<and> toNum v = of_int m"
  shows "formatValue v unit = showNat m @ baseSuffix (unitKindOf unit) unit"
proof -
  from assms have "numberToString (toNum v) = showNat m"
    using numberToString_int [of m] by simp
  moreover from assms have "toNum v < 1000" by simp
  ultimately show ?thesis
    unfolding formatValue_formatHuman formatHuman_def
    by (cases "unitKindOf unit") simp_all
qed

text \<open>
  Claim C9, amended. \<open>formatValue\<close> converts the value to a double (an integer of
  arbitrary precision is formatted as the double nearest to it) and is then the
  threshold table \<open>formatHuman\<close>: nanosecond values scale to seconds, milliseconds
  and microseconds at \<open>10^9\<close>, \<open>10^6\<close> and \<open>10^3\<close>, bytes to GB, MB and KB at the same
  thresholds, counts to M and K at \<open>10^6\<close> and \<open>10^3\<close>; below the last threshold the
  number is printed with the base suffix, and an unknown unit gives the number, a
  space and the unit. The time units the source knows are \<^verbatim>\<open>nanoseconds\<close> and \<^verbatim>\<open>ns\<close>,
  in any letter case. A scaled value from \<open>0\<close> below \<open>10^21\<close> is printed as the
  digits of an integer, a point and two digits, the nearest hundredth; the digits
  of an integer read back as that integer. A number that is an integer from \<open>0\<close>
  below \<open>10^15\<close> is printed as the digits of this integer, so a value below \<open>1000\<close>
  is printed as an integer with the base suffix.
\<close>

theorem formatValue_units:
  "formatValue v unit = formatHuman v unit
   \<and> formatValue (BigInt i) unit = formatValue (Number (fl (of_int i))) unit
   \<and> (0 \<le> x \<and> x < 10 ^ 21
        \<longrightarrow> (\<exists>n. toFixed2 x
                    = showNat (n div 100) @ ''.'' @ [digit (n mod 100 div 10), digit (n mod 10)]
                  \<and> 0 \<le> n \<and> \<bar>of_int n / 100 - x\<bar> \<le> 1 / 200))
   \<and> (0 \<le> k \<longrightarrow> readNat (showNat k) = k)
   \<and> (0 \<le> m \<and> m < 10 ^ 15 \<longrightarrow> numberToString (of_int m) = showNat m)
   \<and> (0 \<le> m \<and> m < 1000 \<and> toNum v = of_int m
        \<longrightarrow> formatValue v unit = showNat m @ baseSuffix (unitKindOf unit) unit)
   \<and> formatValue (Number 1500000000) ''nanoseconds'' = ''1.50s''
   \<and> formatValue (Number 1500) ''bytes'' = ''1.50 KB''
   \<and> formatValue (Number 1500) ''count'' = ''1.50K''
   \<and> formatValue (BigInt 1500000000) ''nanoseconds'' = ''1.50s''
   \<and> formatValue (Number 999) ''ns'' = ''999ns''
   \<and> formatValue (Number 512) ''Bytes'' = ''512 B''
   \<and> formatValue (BigInt 42) ''samples'' = ''42''
   \<and> formatValue (Number 7) ''widgets'' = ''7 widgets''"
proof -
  have "formatValue (Number 1500000000) ''nanoseconds'' = ''1.50s''"
    by code_simp
  moreover have "formatValue (Number 1500) ''bytes'' = ''1.50 KB''"
    by code_simp
  moreover have "formatValue (Number 1500) ''count'' = ''1.50K''"
    by code_simp
  moreover have "formatValue (BigInt 1500000000) ''nanoseconds'' = ''1.50s''"
    by code_simp
  moreover have "formatValue (Number 999) ''ns'' = ''999ns''"
    by code_simp
  moreover have "formatValue (Number 512) ''Bytes'' = ''512 B''"
    by code_simp
  moreover have "formatValue (BigInt 42) ''samples'' = ''42''"
    by code_simp
  moreover have "formatValue (Number 7) ''widgets'' = ''7 widgets''"
    by code_simp
  moreover have "formatValue (BigInt i) unit = formatValue (Number (fl (of_int i))) unit"
    by (simp add: formatValue_def)
  moreover have "numberToString (of_int m) = showNat m" if "0 \<le> m \<and> m < 10 ^ 15"
    using that numberToString_int [of m] by simp
  moreover have "formatValue v unit = showNat m @ baseSuffix (unitKindOf unit) unit"
    if "0 \<le> m \<and> m < 1000 \<and> toNum v = of_int m"
    using that by (rule formatValue_small)
  ultimately show ?thesis
    using formatValue_formatHuman [of v unit] toFixed2_decimals [of x] readNat_showNat [of k]
    by simp
qed

theorem formatValue_units_witness:
  "(0::rat) \<le> 3 / 2 \<and> (3 / 2 :: rat) < 10 ^ 21
   \<and> (\<exists>n. toFixed2 (3 / 2)
            = showNat (n div 100) @ ''.'' @ [digit (n mod 100 div 10), digit (n mod 10)]
          \<and> 0 \<le> n \<and> \<bar>of_int n / 100 - 3 / 2 :: rat\<bar> \<le> 1 / 200)
   \<and> readNat (showNat 150) = 150
   \<and> numberToString 999 = showNat 999
   \<and> formatValue (Number 999) ''ns'' = showNat 999 @ ''ns''"
proof -
  note u = formatValue_units [where x = "3 / 2" and k = 150 and m = 999 and v = "Number 999"
      and unit = "''ns''", THEN conjunct2, THEN conjunct2]
  have ns: "baseSuffix (unitKindOf ''ns'') ''ns'' = ''ns''"
    by code_simp
  from u [THEN conjunct1] u [THEN conjunct2, THEN conjunct1]
    u [THEN conjunct2, THEN conjunct2, THEN conjunct1]
    u [THEN conjunct2, THEN conjunct2, THEN conjunct2, THEN conjunct1]
  show ?thesis by (simp add: ns)
qed

text \<open>
  The claim as stated fails for large values. A time of \<open>10^30\<close> nanoseconds is
  \<open>10^21\<close> seconds, which \<^verbatim>\<open>toFixed(2)\<close> prints in the exponent form of the number,
  without decimals; and the integer \<open>2^53 + 1\<close> with an unknown unit is printed as
  the double it is converted to, \<open>2^53\<close>.
\<close>

theorem formatValue_large_counterexample:
  "formatValue (BigInt (10 ^ 30)) ''nanoseconds'' = ''1e+21s''
   \<and> formatValue (BigInt 9007199254740993) ''widgets'' = ''9007199254740992 widgets''"
  by code_simp

end
